theory Spec2Isabelle
  imports Complex_Main "HOL-Library.Log_Nat"
begin

section \<open>Python numbers\<close>

text \<open>
  The module \<^verbatim>\<open>prevelance_rate_CI.py\<close> computes with Python \<^verbatim>\<open>int\<close> (unbounded, HOL
  \<open>int\<close>) and Python \<^verbatim>\<open>float\<close> (IEEE 754 binary64).  A float is modelled by its value:
  a finite float by the rational number it denotes, the other floats by constructors.
  The two zeros \<^verbatim>\<open>0.0\<close> and \<^verbatim>\<open>-0.0\<close> compare equal in Python and are one value here.
\<close>

datatype pyfloat = Finite rat | PosInf | NegInf | NaN

text \<open>
  The exceptions that the module can raise.  \<open>NotModelled\<close> is no exception of Python: it
  stands for the result of a library function on arguments for which its behaviour is not
  modelled here.
\<close>

datatype py_error = ZeroDivisionError | OverflowError | ValueError | NotModelled

subsection \<open>Rounding to binary64\<close>

text \<open>Round to the nearest integer, ties to the even one (the IEEE default).\<close>

definition round_half_even :: "rat \<Rightarrow> int" where
  "round_half_even x =
     (let f = \<lfloor>x\<rfloor>; d = x - of_int f
      in if d < 1 / 2 then f else if 1 / 2 < d then f + 1 else if even f then f else f + 1)"

text \<open>The binary exponent of a positive rational: \<open>2 powi ilog2 x \<le> x < 2 powi (ilog2 x + 1)\<close>.\<close>

definition ilog2 :: "rat \<Rightarrow> int" where
  "ilog2 x = (if 1 \<le> x then bitlen \<lfloor>x\<rfloor> - 1 else - bitlen (\<lceil>1 / x\<rceil> - 1))"

text \<open>
  \<open>quantum x\<close> is the spacing of the binary64 numbers around \<open>x\<close>: 53-bit significands,
  exponents of at least \<open>-1022\<close> (below \<open>2 powi (-1022)\<close> the spacing stays
  \<open>2 powi (-1074)\<close>: the subnormal numbers).  \<open>round64 x\<close> is the nearest multiple of it.
  The exponent is not bounded above here; the operations below test for overflow.
\<close>

definition quantum :: "rat \<Rightarrow> rat" where
  "quantum x = 2 powi (max (ilog2 \<bar>x\<bar>) (- 1022) - 52)"

definition round64 :: "rat \<Rightarrow> rat" where
  "round64 x = (if x = 0 then 0 else of_int (round_half_even (x / quantum x)) * quantum x)"

text \<open>A float operation delivers the rounded exact result, an infinity when that is too large.\<close>

definition fl :: "rat \<Rightarrow> pyfloat" where
  "fl x =
     (let r = round64 x
      in if 2 ^ 1024 \<le> r then PosInf else if r \<le> - (2 ^ 1024) then NegInf else Finite r)"

subsection \<open>The operators the module uses\<close>

text \<open>
  \<^verbatim>\<open>a / b\<close> on two Python ints: the correctly rounded quotient; \<^verbatim>\<open>ZeroDivisionError\<close> for
  \<^verbatim>\<open>b == 0\<close>, \<^verbatim>\<open>OverflowError\<close> ("integer division result too large for a float") when
  the rounded quotient is beyond the largest float.
\<close>

definition int_truediv :: "int \<Rightarrow> int \<Rightarrow> py_error + pyfloat" where
  "int_truediv a b =
     (if b = 0 then Inl ZeroDivisionError
      else let r = round64 (of_int a / of_int b)
           in if 2 ^ 1024 \<le> \<bar>r\<bar> then Inl OverflowError else Inr (Finite r))"

fun fsgn :: "pyfloat \<Rightarrow> int" where
  "fsgn (Finite x) = (if x < 0 then - 1 else if x = 0 then 0 else 1)"
| "fsgn PosInf = 1"
| "fsgn NegInf = - 1"
| "fsgn NaN = 0"

text \<open>\<^verbatim>\<open>a * b\<close> on two floats: never raises; overflow gives an infinity.\<close>

fun fmul :: "pyfloat \<Rightarrow> pyfloat \<Rightarrow> pyfloat" where
  "fmul NaN b = NaN"
| "fmul a NaN = NaN"
| "fmul (Finite x) (Finite y) = fl (x * y)"
| "fmul a b =
     (if fsgn a * fsgn b = 0 then NaN else if 0 < fsgn a * fsgn b then PosInf else NegInf)"

text \<open>\<^verbatim>\<open>a - b\<close> on two floats.\<close>

fun fsub :: "pyfloat \<Rightarrow> pyfloat \<Rightarrow> pyfloat" where
  "fsub NaN b = NaN"
| "fsub a NaN = NaN"
| "fsub (Finite x) (Finite y) = fl (x - y)"
| "fsub PosInf PosInf = NaN"
| "fsub NegInf NegInf = NaN"
| "fsub PosInf b = PosInf"
| "fsub NegInf b = NegInf"
| "fsub a PosInf = NegInf"
| "fsub a NegInf = PosInf"

text \<open>\<^verbatim>\<open>a / b\<close> on two floats: \<^verbatim>\<open>ZeroDivisionError\<close> for a zero divisor.\<close>

fun fdiv :: "pyfloat \<Rightarrow> pyfloat \<Rightarrow> py_error + pyfloat" where
  "fdiv a (Finite y) =
     (if y = 0 then Inl ZeroDivisionError
      else case a of
             Finite x \<Rightarrow> Inr (fl (x / y))
           | NaN \<Rightarrow> Inr NaN
           | _ \<Rightarrow> Inr (if 0 < fsgn a * fsgn (Finite y) then PosInf else NegInf))"
| "fdiv a NaN = Inr NaN"
| "fdiv NaN b = Inr NaN"
| "fdiv (Finite x) b = Inr (Finite 0)"
| "fdiv a b = Inr NaN"

text \<open>The comparison \<^verbatim>\<open>a <= b\<close> on two floats; every comparison with a NaN is false.\<close>

fun fle :: "pyfloat \<Rightarrow> pyfloat \<Rightarrow> bool" where
  "fle NaN b = False"
| "fle a NaN = False"
| "fle NegInf b = True"
| "fle a PosInf = True"
| "fle (Finite x) (Finite y) = (x \<le> y)"
| "fle a b = False"

section \<open>Logging\<close>

text \<open>
  \<^verbatim>\<open>utils.logs.logger\<close> is a \<^verbatim>\<open>logging.Logger\<close>.  A call to it is recorded as the level,
  the message template and the arguments; a function that logs returns its records, in
  the order of the calls, beside its result.
\<close>

datatype log_level = INFO | WARNING | ERROR

datatype log_arg = IntArg int | FloatArg pyfloat | StrArg string

datatype log_record = Log (level: log_level) (msg: string) (args: "log_arg list")

section \<open>calculate_prevalence_rate\<close>

text \<open>
  Lines 35 to 54.  \<^verbatim>\<open>condition_rate\<close> is the int \<^verbatim>\<open>0\<close> in the else branch; the product
  converts it to the float \<^verbatim>\<open>0.0\<close>, which is the value it has here.  An exception leaves
  the records logged before it.
\<close>

definition calculate_prevalence_rate ::
  "int \<Rightarrow> int \<Rightarrow> int \<Rightarrow> int \<Rightarrow> log_record list \<times> (py_error + pyfloat)" where
  "calculate_prevalence_rate population diagnosed_cases total_condition_reports
       specific_condition_count =
     (let log0 = [Log INFO ''Calculating prevalence rate for a specific mental health condition.'' []]
      in if population = 0 then (log0 @ [Log ERROR ''Population cannot be zero.'' []], Inr (Finite 0))
         else
           let log1 = log0 @
                 (if diagnosed_cases > population
                  then [Log WARNING ''Diagnosed cases exceed the total population. Check data.'' []]
                  else [])
           in case int_truediv diagnosed_cases population of
                Inl e \<Rightarrow> (log1, Inl e)
              | Inr diagnosis_rate \<Rightarrow>
                  (case (if total_condition_reports > 0
                         then int_truediv specific_condition_count total_condition_reports
                         else Inr (Finite 0)) of
                     Inl e \<Rightarrow> (log1, Inl e)
                   | Inr condition_rate \<Rightarrow>
                       let prevalence_rate = fmul diagnosis_rate condition_rate
                       in (log1 @
                           [Log INFO ''Diagnosis Rate: %.5f'' [FloatArg diagnosis_rate],
                            Log INFO ''Condition Rate: %.5f'' [FloatArg condition_rate],
                            Log INFO ''Prevalence Rate: %.5f'' [FloatArg prevalence_rate]],
                           Inr prevalence_rate)))"

section \<open>calculate_disorder_prevalence\<close>

text \<open>
  A \<^verbatim>\<open>DataFrame\<close> is the list of its rows; of a row the module reads the columns
  \<^verbatim>\<open>SurveyID\<close>, \<^verbatim>\<open>questiontext\<close> and \<^verbatim>\<open>AnswerText\<close>.  \<^verbatim>\<open>df[mask]\<close> is \<open>filter\<close>, \<^verbatim>\<open>len\<close> is
  \<open>length\<close>, \<^verbatim>\<open>pd.concat\<close> is \<open>@\<close>.
\<close>

record row =
  SurveyID :: int
  questiontext :: string
  AnswerText :: string

definition main_question :: string where
  "main_question = ''Do you currently have a mental health disorder?''"

definition follow_up_question :: string where
  "follow_up_question = ''If yes, what condition(s) have you been diagnosed with?''"

text \<open>Lines 68 to 106.\<close>

definition calculate_disorder_prevalence ::
  "row list \<Rightarrow> string \<Rightarrow> log_record list \<times> (py_error + pyfloat)" where
  "calculate_disorder_prevalence df disorder_name =
     (let df_2016 = filter (\<lambda>r. SurveyID r = 2016) df;
          population = int (length (filter (\<lambda>r. questiontext r = main_question) df_2016));
          diagnosed_cases = int (length (filter
            (\<lambda>r. questiontext r = main_question \<and> AnswerText r = ''Yes'') df_2016));
          total_condition_reports = int (length (filter
            (\<lambda>r. questiontext r = follow_up_question) df_2016));
          disorder_reports = int (length (filter
            (\<lambda>r. questiontext r = follow_up_question \<and> AnswerText r = disorder_name) df_2016));
          (log, prevalence_rate) = calculate_prevalence_rate
            population diagnosed_cases total_condition_reports disorder_reports
      in ([Log INFO ''Total Population: {population}'' [IntArg population],
           Log INFO ''Diagnosed Cases: {diagnosed_cases}'' [IntArg diagnosed_cases],
           Log INFO ''Total Condition Reports: {total_condition_reports}''
             [IntArg total_condition_reports],
           Log INFO ''{disorder_name} Reports: {disorder_reports}''
             [StrArg disorder_name, IntArg disorder_reports]]
          @ log
          @ (case prevalence_rate of
               Inl e \<Rightarrow> []
             | Inr r \<Rightarrow> [Log INFO ''Final Prevalence Rate: {prevalence_rate:.2f}'' [FloatArg r]]),
          prevalence_rate))"

section \<open>bootstrap_prevalence_rate\<close>

text \<open>
  Modelled from the spec: \<^verbatim>\<open>numpy.random.RandomState\<close> and \<^verbatim>\<open>DataFrame.sample\<close> are library
  code.  The generator is a parameter: any type of states \<open>'g\<close> with a function from the
  seed to the first state and a function that draws a number and gives the next state.
  \<^verbatim>\<open>RandomState(seed)\<close> raises \<^verbatim>\<open>ValueError\<close> for a seed outside \<open>0 .. 2^32 - 1\<close>.
  \<^verbatim>\<open>df.sample(n, replace=True, random_state=rng)\<close> draws \<open>n\<close> row positions from \<open>rng\<close>, one
  after the other (a position is the number drawn, reduced modulo the number of rows,
  which changes nothing for a draw function that stays below it), and raises
  \<^verbatim>\<open>ValueError\<close> for a negative \<open>n\<close> and for a positive \<open>n\<close> on an empty frame.  The
  generator object is mutated by each draw: its state is passed on.
\<close>

record 'g generator =
  seed_state :: "int \<Rightarrow> 'g"
  next_index :: "'g \<Rightarrow> nat \<Rightarrow> nat \<times> 'g"

definition RandomState :: "'g generator \<Rightarrow> int \<Rightarrow> py_error + 'g" where
  "RandomState G seed =
     (if 0 \<le> seed \<and> seed < 2 ^ 32 then Inr (seed_state G seed) else Inl ValueError)"

fun choice :: "'g generator \<Rightarrow> nat \<Rightarrow> nat \<Rightarrow> 'g \<Rightarrow> nat list \<times> 'g" where
  "choice G a 0 rng = ([], rng)"
| "choice G a (Suc k) rng =
     (let (i, rng1) = next_index G rng a;
          (is, rng2) = choice G a k rng1
      in (i mod a # is, rng2))"

definition sample :: "'g generator \<Rightarrow> row list \<Rightarrow> int \<Rightarrow> 'g \<Rightarrow> py_error + row list \<times> 'g" where
  "sample G df n rng =
     (if n < 0 then Inl ValueError
      else if df = [] \<and> 0 < n then Inl ValueError
      else let (is, rng') = choice G (length df) (nat n) rng
           in Inr (map (\<lambda>i. df ! i) is, rng'))"

text \<open>
  Lines 148 to 153: the two draws of one iteration.  \<^verbatim>\<open>sample_size if sample_size else len(df)\<close>
  tests the truth value of \<^verbatim>\<open>sample_size\<close>: \<^verbatim>\<open>None\<close> and \<^verbatim>\<open>0\<close> are both false.
\<close>

definition sample_size_or_len :: "int option \<Rightarrow> row list \<Rightarrow> int" where
  "sample_size_or_len sample_size df =
     (case sample_size of
        None \<Rightarrow> int (length df)
      | Some n \<Rightarrow> if n \<noteq> 0 then n else int (length df))"

definition bootstrap_draws ::
  "'g generator \<Rightarrow> row list \<Rightarrow> row list \<Rightarrow> int option \<Rightarrow> 'g
     \<Rightarrow> py_error + row list \<times> row list \<times> 'g" where
  "bootstrap_draws G main_question_df follow_up_df sample_size rng =
     (case sample G main_question_df (sample_size_or_len sample_size main_question_df) rng of
        Inl e \<Rightarrow> Inl e
      | Inr (bootstrap_main, rng1) \<Rightarrow>
          (case sample G follow_up_df (sample_size_or_len sample_size follow_up_df) rng1 of
             Inl e \<Rightarrow> Inl e
           | Inr (bootstrap_follow_up, rng2) \<Rightarrow> Inr (bootstrap_main, bootstrap_follow_up, rng2)))"

text \<open>Lines 148 to 157: one iteration of the loop; the log records are not kept from here on.\<close>

definition bootstrap_iteration ::
  "'g generator \<Rightarrow> row list \<Rightarrow> row list \<Rightarrow> string \<Rightarrow> int option \<Rightarrow> 'g
     \<Rightarrow> py_error + pyfloat \<times> 'g" where
  "bootstrap_iteration G main_question_df follow_up_df disorder_name sample_size rng =
     (case bootstrap_draws G main_question_df follow_up_df sample_size rng of
        Inl e \<Rightarrow> Inl e
      | Inr (bootstrap_main, bootstrap_follow_up, rng') \<Rightarrow>
          (let temp_df = bootstrap_main @ bootstrap_follow_up
           in case snd (calculate_disorder_prevalence temp_df disorder_name) of
                Inl e \<Rightarrow> Inl e
              | Inr bootstrap_rate \<Rightarrow> Inr (bootstrap_rate, rng')))"

text \<open>Lines 147 to 158: the loop, with the iterations that remain as its counter.\<close>

fun bootstrap_loop ::
  "'g generator \<Rightarrow> row list \<Rightarrow> row list \<Rightarrow> string \<Rightarrow> int option \<Rightarrow> nat \<Rightarrow> 'g
     \<Rightarrow> pyfloat list \<Rightarrow> py_error + pyfloat list" where
  "bootstrap_loop G main_question_df follow_up_df disorder_name sample_size 0 rng
       bootstrap_rates = Inr bootstrap_rates"
| "bootstrap_loop G main_question_df follow_up_df disorder_name sample_size (Suc k) rng
       bootstrap_rates =
     (case bootstrap_iteration G main_question_df follow_up_df disorder_name sample_size rng of
        Inl e \<Rightarrow> Inl e
      | Inr (bootstrap_rate, rng') \<Rightarrow>
          bootstrap_loop G main_question_df follow_up_df disorder_name sample_size k rng'
            (bootstrap_rates @ [bootstrap_rate]))"

text \<open>Lines 133 to 160.  \<^verbatim>\<open>range(n_iterations)\<close> is empty for a negative \<^verbatim>\<open>n_iterations\<close>.\<close>

definition bootstrap_prevalence_rate ::
  "'g generator \<Rightarrow> row list \<Rightarrow> string \<Rightarrow> int \<Rightarrow> int option \<Rightarrow> int
     \<Rightarrow> py_error + pyfloat \<times> pyfloat list" where
  "bootstrap_prevalence_rate G df disorder_name n_iterations sample_size random_state =
     (case snd (calculate_disorder_prevalence df disorder_name) of
        Inl e \<Rightarrow> Inl e
      | Inr original_rate \<Rightarrow>
          (let df_2016 = filter (\<lambda>r. SurveyID r = 2016) df;
               main_question_df = filter (\<lambda>r. questiontext r = main_question) df_2016;
               follow_up_df = filter (\<lambda>r. questiontext r = follow_up_question) df_2016
           in case RandomState G random_state of
                Inl e \<Rightarrow> Inl e
              | Inr rng \<Rightarrow>
                  (case bootstrap_loop G main_question_df follow_up_df disorder_name sample_size
                          (nat n_iterations) rng [] of
                     Inl e \<Rightarrow> Inl e
                   | Inr bootstrap_rates \<Rightarrow> Inr (original_rate, bootstrap_rates))))"

text \<open>
  The generator state at the start of iteration \<open>k\<close>, when the state at the start of the
  loop is \<open>rng\<close>: the state that the draws of the iterations before it have left.
\<close>

fun rng_at ::
  "'g generator \<Rightarrow> row list \<Rightarrow> row list \<Rightarrow> int option \<Rightarrow> nat \<Rightarrow> 'g \<Rightarrow> 'g" where
  "rng_at G main_question_df follow_up_df sample_size 0 rng = rng"
| "rng_at G main_question_df follow_up_df sample_size (Suc k) rng =
     (case bootstrap_draws G main_question_df follow_up_df sample_size rng of
        Inl e \<Rightarrow> rng
      | Inr (bootstrap_main, bootstrap_follow_up, rng') \<Rightarrow>
          rng_at G main_question_df follow_up_df sample_size k rng')"

section \<open>bootstrap_prevalence_rate with the generator as an object\<close>

text \<open>
  In Python the generator of line 146 is an object, and what a call computes can depend on
  what it finds: \<^verbatim>\<open>DataFrame.sample\<close> takes as \<^verbatim>\<open>random_state\<close> nothing (then it draws
  from the generator of the module \<^verbatim>\<open>numpy.random\<close>, which every earlier draw of the
  process has moved on), an int (then it draws from a new generator with that seed) or a
  generator object (then it draws from that object and moves it on).  The world of a
  call is the state of the module's generator and the generator objects created so far;
  a reference to an object is its position.  Modelled from the spec: the three cases
  are pandas', the source uses the third.
\<close>

record 'g world =
  global_rng :: 'g
  objects :: "'g list"

datatype random_state_arg = Unset | Seed int | Object nat

text \<open>\<^verbatim>\<open>np.random.RandomState(seed)\<close>: a new object.\<close>

definition new_RandomState ::
  "'g generator \<Rightarrow> int \<Rightarrow> 'g world \<Rightarrow> py_error + nat \<times> 'g world" where
  "new_RandomState G seed w =
     (case RandomState G seed of
        Inl e \<Rightarrow> Inl e
      | Inr rng \<Rightarrow> Inr (length (objects w), w\<lparr>objects := objects w @ [rng]\<rparr>))"

text \<open>\<^verbatim>\<open>df.sample(n, replace=True, random_state=arg)\<close> in a world.\<close>

definition sample_in ::
  "'g generator \<Rightarrow> row list \<Rightarrow> int \<Rightarrow> random_state_arg \<Rightarrow> 'g world
     \<Rightarrow> py_error + row list \<times> 'g world" where
  "sample_in G df n arg w =
     (case arg of
        Unset \<Rightarrow>
          (case sample G df n (global_rng w) of
             Inl e \<Rightarrow> Inl e
           | Inr (rows, rng') \<Rightarrow> Inr (rows, w\<lparr>global_rng := rng'\<rparr>))
      | Seed seed \<Rightarrow>
          (case RandomState G seed of
             Inl e \<Rightarrow> Inl e
           | Inr rng \<Rightarrow>
               (case sample G df n rng of
                  Inl e \<Rightarrow> Inl e
                | Inr (rows, rng') \<Rightarrow> Inr (rows, w)))
      | Object r \<Rightarrow>
          if length (objects w) \<le> r then Inl NotModelled
          else (case sample G df n (objects w ! r) of
                  Inl e \<Rightarrow> Inl e
                | Inr (rows, rng') \<Rightarrow> Inr (rows, w\<lparr>objects := (objects w)[r := rng']\<rparr>)))"

text \<open>Lines 148 to 157, with \<^verbatim>\<open>rng\<close> a reference.\<close>

definition bootstrap_iteration_in ::
  "'g generator \<Rightarrow> row list \<Rightarrow> row list \<Rightarrow> string \<Rightarrow> int option \<Rightarrow> nat \<Rightarrow> 'g world
     \<Rightarrow> py_error + pyfloat \<times> 'g world" where
  "bootstrap_iteration_in G main_question_df follow_up_df disorder_name sample_size rng w =
     (case sample_in G main_question_df (sample_size_or_len sample_size main_question_df)
             (Object rng) w of
        Inl e \<Rightarrow> Inl e
      | Inr (bootstrap_main, w1) \<Rightarrow>
          (case sample_in G follow_up_df (sample_size_or_len sample_size follow_up_df)
                  (Object rng) w1 of
             Inl e \<Rightarrow> Inl e
           | Inr (bootstrap_follow_up, w2) \<Rightarrow>
               (let temp_df = bootstrap_main @ bootstrap_follow_up
                in case snd (calculate_disorder_prevalence temp_df disorder_name) of
                     Inl e \<Rightarrow> Inl e
                   | Inr bootstrap_rate \<Rightarrow> Inr (bootstrap_rate, w2))))"

text \<open>Lines 147 to 158.\<close>

fun bootstrap_loop_in ::
  "'g generator \<Rightarrow> row list \<Rightarrow> row list \<Rightarrow> string \<Rightarrow> int option \<Rightarrow> nat \<Rightarrow> nat
     \<Rightarrow> 'g world \<Rightarrow> pyfloat list \<Rightarrow> py_error + pyfloat list \<times> 'g world" where
  "bootstrap_loop_in G main_question_df follow_up_df disorder_name sample_size 0 rng w
       bootstrap_rates = Inr (bootstrap_rates, w)"
| "bootstrap_loop_in G main_question_df follow_up_df disorder_name sample_size (Suc k) rng w
       bootstrap_rates =
     (case bootstrap_iteration_in G main_question_df follow_up_df disorder_name sample_size
             rng w of
        Inl e \<Rightarrow> Inl e
      | Inr (bootstrap_rate, w') \<Rightarrow>
          bootstrap_loop_in G main_question_df follow_up_df disorder_name sample_size k rng w'
            (bootstrap_rates @ [bootstrap_rate]))"

text \<open>Lines 133 to 160: the call in a world; it returns its result and the world it leaves.\<close>

definition bootstrap_prevalence_rate_in ::
  "'g generator \<Rightarrow> row list \<Rightarrow> string \<Rightarrow> int \<Rightarrow> int option \<Rightarrow> int \<Rightarrow> 'g world
     \<Rightarrow> py_error + (pyfloat \<times> pyfloat list) \<times> 'g world" where
  "bootstrap_prevalence_rate_in G df disorder_name n_iterations sample_size random_state w =
     (case snd (calculate_disorder_prevalence df disorder_name) of
        Inl e \<Rightarrow> Inl e
      | Inr original_rate \<Rightarrow>
          (let df_2016 = filter (\<lambda>r. SurveyID r = 2016) df;
               main_question_df = filter (\<lambda>r. questiontext r = main_question) df_2016;
               follow_up_df = filter (\<lambda>r. questiontext r = follow_up_question) df_2016
           in case new_RandomState G random_state w of
                Inl e \<Rightarrow> Inl e
              | Inr (rng, w0) \<Rightarrow>
                  (case bootstrap_loop_in G main_question_df follow_up_df disorder_name
                          sample_size (nat n_iterations) rng w0 [] of
                     Inl e \<Rightarrow> Inl e
                   | Inr (bootstrap_rates, w') \<Rightarrow>
                       Inr ((original_rate, bootstrap_rates), w'))))"

section \<open>calculate_confidence_interval\<close>

text \<open>
  Modelled from the spec: \<^verbatim>\<open>numpy.percentile\<close> is library code; the spec gives it as "the
  empirical percentile values (linear interpolation between order statistics)".  With the
  sorted values \<open>s\<close> of length \<open>n\<close>, the percentile at \<open>p\<close> is read at the position
  \<open>h = (n - 1) * p / 100\<close>, between \<open>s ! \<lfloor>h\<rfloor>\<close> and the next value.  The interpolation is exact
  here (the rounding inside the library is not modelled).  A percentile outside
  \<open>0 .. 100\<close> raises \<^verbatim>\<open>ValueError\<close>; for an empty list the spec leaves the behaviour undefined,
  and lists with entries that are not finite are not modelled.
\<close>

definition linear_percentile :: "rat list \<Rightarrow> rat \<Rightarrow> rat" where
  "linear_percentile xs p =
     (let s = sort xs;
          n = length s;
          h = of_nat (n - 1) * p / 100;
          j = nat \<lfloor>h\<rfloor>;
          g = h - of_int \<lfloor>h\<rfloor>
      in s ! j + g * (s ! min (j + 1) (n - 1) - s ! j))"

fun finite_value :: "pyfloat \<Rightarrow> rat option" where
  "finite_value (Finite x) = Some x"
| "finite_value a = None"

definition np_percentile :: "pyfloat list \<Rightarrow> pyfloat \<Rightarrow> py_error + pyfloat" where
  "np_percentile a q =
     (case q of
        Finite p \<Rightarrow>
          if p < 0 \<or> 100 < p then Inl ValueError
          else (case those (map finite_value a) of
                  None \<Rightarrow> Inl NotModelled
                | Some xs \<Rightarrow>
                    if xs = [] then Inl NotModelled else Inr (Finite (linear_percentile xs p)))
      | _ \<Rightarrow> Inl ValueError)"

text \<open>Lines 175 to 179.  The int literals \<^verbatim>\<open>1\<close>, \<^verbatim>\<open>2\<close> and \<^verbatim>\<open>100\<close> become floats.\<close>

definition calculate_confidence_interval ::
  "pyfloat list \<Rightarrow> pyfloat \<Rightarrow> py_error + pyfloat \<times> pyfloat" where
  "calculate_confidence_interval bootstrap_rates confidence_level =
     (case fdiv (fsub (Finite 1) confidence_level) (Finite 2) of
        Inl e \<Rightarrow> Inl e
      | Inr lower_percentile \<Rightarrow>
          (let upper_percentile = fsub (Finite 1) lower_percentile
           in case np_percentile bootstrap_rates (fmul lower_percentile (Finite 100)) of
                Inl e \<Rightarrow> Inl e
              | Inr lower_bound \<Rightarrow>
                  (case np_percentile bootstrap_rates (fmul upper_percentile (Finite 100)) of
                     Inl e \<Rightarrow> Inl e
                   | Inr upper_bound \<Rightarrow> Inr (lower_bound, upper_bound))))"

section \<open>analyze_disorder_prevalence\<close>

text \<open>
  Modelled from the spec: \<^verbatim>\<open>numpy.std\<close> is library code.  With \<^verbatim>\<open>ddof\<close> "delta degrees of
  freedom" it is the square root of the sum of the squared deviations from the mean
  divided by \<open>N - ddof\<close>; the call in line 210 leaves \<^verbatim>\<open>ddof\<close> at its default \<open>0\<close>.  The
  value is exact here, a real number; empty lists and lists with entries that are not
  finite are not modelled.
\<close>

definition mean :: "rat list \<Rightarrow> rat" where
  "mean xs = sum_list xs / of_nat (length xs)"

definition np_std :: "pyfloat list \<Rightarrow> nat \<Rightarrow> py_error + real" where
  "np_std a ddof =
     (case those (map finite_value a) of
        None \<Rightarrow> Inl NotModelled
      | Some xs \<Rightarrow>
          if xs = [] then Inl NotModelled
          else Inr (sqrt (of_rat (sum_list (map (\<lambda>x. (x - mean xs) ^ 2) xs)
                                   / of_nat (length xs - ddof)))))"

text \<open>The spec's words: "the population standard deviation (not sample, i.e. divide by N)".\<close>

definition population_std :: "rat list \<Rightarrow> real" where
  "population_std xs =
     sqrt (of_rat (sum_list (map (\<lambda>x. (x - mean xs) ^ 2) xs)) / of_nat (length xs))"

text \<open>The returned dict, a field \<open>key_k\<close> for its key \<open>k\<close>.\<close>

record analysis =
  key_original_rate :: pyfloat
  key_confidence_interval :: "pyfloat \<times> pyfloat"
  key_bootstrap_rates :: "pyfloat list"
  key_standard_error :: real

text \<open>
  Lines 205 to 221.  \<^verbatim>\<open>sample_size\<close> is not passed to \<^verbatim>\<open>bootstrap_prevalence_rate\<close>: it is
  \<^verbatim>\<open>None\<close>.
\<close>

definition analyze_disorder_prevalence ::
  "'g generator \<Rightarrow> row list \<Rightarrow> string \<Rightarrow> int \<Rightarrow> pyfloat \<Rightarrow> int \<Rightarrow> py_error + analysis" where
  "analyze_disorder_prevalence G df disorder_name n_iterations confidence_level random_state =
     (case bootstrap_prevalence_rate G df disorder_name n_iterations None random_state of
        Inl e \<Rightarrow> Inl e
      | Inr (original_rate, bootstrap_rates) \<Rightarrow>
          (case calculate_confidence_interval bootstrap_rates confidence_level of
             Inl e \<Rightarrow> Inl e
           | Inr (lower_bound, upper_bound) \<Rightarrow>
               (case np_std bootstrap_rates 0 of
                  Inl e \<Rightarrow> Inl e
                | Inr standard_error \<Rightarrow>
                    Inr \<lparr>key_original_rate = original_rate,
                         key_confidence_interval = (lower_bound, upper_bound),
                         key_bootstrap_rates = bootstrap_rates,
                         key_standard_error = standard_error\<rparr>)))"

section \<open>Notions for the statements\<close>

text \<open>
  The two row groups of lines 137 to 143 (the spec's \<open>main_question_rows\<close> and
  \<open>follow_up_rows\<close>), as functions of the frame.
\<close>

definition main_question_rows :: "row list \<Rightarrow> row list" where
  "main_question_rows df =
     filter (\<lambda>r. questiontext r = main_question) (filter (\<lambda>r. SurveyID r = 2016) df)"

definition follow_up_rows :: "row list \<Rightarrow> row list" where
  "follow_up_rows df =
     filter (\<lambda>r. questiontext r = follow_up_question) (filter (\<lambda>r. SurveyID r = 2016) df)"

text \<open>
  The sample sizes with which the two draws of an iteration raise no \<^verbatim>\<open>ValueError\<close>: none
  given, or a non-negative one that is \<open>0\<close> or meets two non-empty row groups.
\<close>

definition draws_ok :: "row list \<Rightarrow> row list \<Rightarrow> int option \<Rightarrow> bool" where
  "draws_ok main_question_df follow_up_df sample_size =
     (case sample_size of
        None \<Rightarrow> True
      | Some n \<Rightarrow> 0 \<le> n \<and> (n = 0 \<or> main_question_df \<noteq> [] \<and> follow_up_df \<noteq> []))"

text \<open>
  A small generator and a small frame, on which the functions are evaluated: the
  generator counts its draws, the frame has two answers to the main question and one
  condition report in the 2016 survey, and one answer in the 2014 survey.
\<close>

definition counter_generator :: "nat generator" where
  "counter_generator = \<lparr>seed_state = nat, next_index = (\<lambda>rng a. (rng, Suc rng))\<rparr>"

definition row_yes :: row where
  "row_yes = \<lparr>SurveyID = 2016, questiontext = main_question, AnswerText = ''Yes''\<rparr>"

definition row_no :: row where
  "row_no = \<lparr>SurveyID = 2016, questiontext = main_question, AnswerText = ''No''\<rparr>"

definition row_anxiety :: row where
  "row_anxiety =
     \<lparr>SurveyID = 2016, questiontext = follow_up_question, AnswerText = ''Anxiety''\<rparr>"

definition row_2014 :: row where
  "row_2014 = \<lparr>SurveyID = 2014, questiontext = main_question, AnswerText = ''Yes''\<rparr>"

definition example_df :: "row list" where
  "example_df = [row_yes, row_no, row_anxiety, row_2014]"

section \<open>Properties of the rounding\<close>

lemma round_half_even_of_int: "round_half_even (of_int n) = n"
  by (simp add: round_half_even_def)

lemma round_half_even_cases: "round_half_even x = \<lfloor>x\<rfloor> \<or> round_half_even x = \<lfloor>x\<rfloor> + 1"
  by (simp add: round_half_even_def Let_def)

lemma round_half_even_mono: "x \<le> y \<Longrightarrow> round_half_even x \<le> round_half_even y"
proof -
  assume xy: "x \<le> y"
  then have fl: "\<lfloor>x\<rfloor> \<le> \<lfloor>y\<rfloor>" by (rule floor_mono)
  show ?thesis
  proof (cases "\<lfloor>x\<rfloor> = \<lfloor>y\<rfloor>")
    case True
    with xy show ?thesis by (auto simp: round_half_even_def Let_def)
  next
    case False
    with fl have "\<lfloor>x\<rfloor> + 1 \<le> \<lfloor>y\<rfloor>" by simp
    moreover have "round_half_even x \<le> \<lfloor>x\<rfloor> + 1"
      using round_half_even_cases [of x] by auto
    moreover have "\<lfloor>y\<rfloor> \<le> round_half_even y"
      using round_half_even_cases [of y] by auto
    ultimately show ?thesis by linarith
  qed
qed

lemma pow2_less_imp_less:
  assumes "(2::rat) powi a < 2 powi b"
  shows "a < b"
proof (rule ccontr)
  assume "\<not> a < b"
  then have "b \<le> a" by simp
  then have "(2::rat) powi b \<le> 2 powi a" by (rule power_int_increasing) simp
  with assms show False by simp
qed

lemma ilog2_bounds:
  assumes "0 < x"
  shows "2 powi ilog2 x \<le> x \<and> x < 2 powi (ilog2 x + 1)"
proof (cases "1 \<le> x")
  case True
  define m where "m = \<lfloor>x\<rfloor>"
  have m: "0 < m" using True by (simp add: m_def)
  have e: "ilog2 x = bitlen m - 1" using True by (simp add: ilog2_def m_def)
  have b1: "1 \<le> bitlen m" using m by (simp add: bitlen_alt_def)
  from bitlen_bounds [OF m]
  have lo: "2 ^ nat (bitlen m - 1) \<le> m" and hi: "m + 1 \<le> 2 ^ nat (bitlen m)" by auto
  have "(2::rat) powi (bitlen m - 1) = of_int (2 ^ nat (bitlen m - 1))"
    using b1 by (simp add: power_int_def)
  also have "\<dots> \<le> of_int m" using lo by (simp only: of_int_le_iff)
  also have "\<dots> \<le> x" by (simp add: m_def)
  finally have A: "2 powi ilog2 x \<le> x" by (simp add: e)
  have "x < of_int (m + 1)" unfolding m_def by linarith
  also have "\<dots> \<le> of_int (2 ^ nat (bitlen m))" using hi by (simp only: of_int_le_iff)
  also have "\<dots> = (2::rat) powi (bitlen m - 1 + 1)" using b1 by (simp add: power_int_def)
  finally have B: "x < 2 powi (ilog2 x + 1)" by (simp add: e)
  from A B show ?thesis ..
next
  case False
  define c where "c = \<lceil>1 / x\<rceil>"
  define m where "m = bitlen (c - 1)"
  have y1: "1 < 1 / x" using False assms by simp
  then have c: "0 < c - 1" by (simp add: c_def less_ceiling_iff)
  have e: "ilog2 x = - m" using False by (simp add: ilog2_def m_def c_def)
  have b1: "1 \<le> m" using c by (simp add: bitlen_alt_def m_def)
  from bitlen_bounds [OF c]
  have lo: "2 ^ nat (m - 1) \<le> c - 1" and hi: "c \<le> 2 ^ nat m" by (auto simp: m_def)
  have "1 / x \<le> of_int c" by (simp add: c_def)
  also have "\<dots> \<le> of_int (2 ^ nat m)" using hi by (simp only: of_int_le_iff)
  also have "\<dots> = (2::rat) powi m" using b1 by (simp add: power_int_def)
  finally have "1 / x \<le> 2 powi m" .
  then have "1 \<le> 2 powi m * x" using assms by (simp add: field_simps)
  then have A: "2 powi ilog2 x \<le> x"
    by (simp add: e power_int_minus field_simps)
  have "(2::rat) powi (m - 1) = of_int (2 ^ nat (m - 1))" using b1 by (simp add: power_int_def)
  also have "\<dots> \<le> of_int (c - 1)" using lo by (simp only: of_int_le_iff)
  also have "\<dots> < 1 / x" unfolding c_def by linarith
  finally have "2 powi (m - 1) < 1 / x" .
  then have "x < 1 / 2 powi (m - 1)" using assms by (simp add: field_simps)
  also have "1 / 2 powi (m - 1) = (2::rat) powi (- (m - 1))"
    by (simp only: power_int_minus_divide)
  finally have B: "x < 2 powi (ilog2 x + 1)"
    by (simp add: e)
  from A B show ?thesis ..
qed

lemma ilog2_unique:
  assumes "2 powi e \<le> x" "x < 2 powi (e + 1)"
  shows "ilog2 x = e"
proof -
  have x: "0 < x" using assms(1) by (rule less_le_trans [rotated]) simp
  from ilog2_bounds [OF x] have lo: "2 powi ilog2 x \<le> x" and hi: "x < 2 powi (ilog2 x + 1)"
    by auto
  have "(2::rat) powi e < 2 powi (ilog2 x + 1)" using assms(1) hi by simp
  then have 1: "e < ilog2 x + 1" by (rule pow2_less_imp_less)
  have "(2::rat) powi ilog2 x < 2 powi (e + 1)" using lo assms(2) by simp
  then have 2: "ilog2 x < e + 1" by (rule pow2_less_imp_less)
  from 1 2 show ?thesis by simp
qed

lemma ilog2_mono:
  assumes "0 < x" "x \<le> y"
  shows "ilog2 x \<le> ilog2 y"
proof -
  have y: "0 < y" using assms by simp
  from ilog2_bounds [OF assms(1)] ilog2_bounds [OF y]
  have "(2::rat) powi ilog2 x < 2 powi (ilog2 y + 1)" using assms(2) by linarith
  then have "ilog2 x < ilog2 y + 1" by (rule pow2_less_imp_less)
  then show ?thesis by simp
qed

lemma quantum_pos: "0 < quantum x"
  by (simp add: quantum_def)

lemma round64_quantum:
  "x \<noteq> 0 \<Longrightarrow> round64 x = of_int (round_half_even (x / quantum x)) * quantum x"
  by (simp add: round64_def)

lemma round64_zero: "round64 0 = 0"
  by (simp add: round64_def)

lemma round64_le_grid:
  assumes "x \<noteq> 0" "x \<le> of_int n * quantum x"
  shows "round64 x \<le> of_int n * quantum x"
proof -
  have "x / quantum x \<le> of_int n" using assms(2) quantum_pos [of x] by (simp add: field_simps)
  then have "round_half_even (x / quantum x) \<le> n"
    using round_half_even_mono [of "x / quantum x" "of_int n"] by (simp add: round_half_even_of_int)
  then have "(of_int (round_half_even (x / quantum x)) :: rat) \<le> of_int n" by simp
  then show ?thesis using quantum_pos [of x] by (simp add: round64_quantum [OF assms(1)])
qed

lemma round64_ge_grid:
  assumes "x \<noteq> 0" "of_int n * quantum x \<le> x"
  shows "of_int n * quantum x \<le> round64 x"
proof -
  have "of_int n \<le> x / quantum x" using assms(2) quantum_pos [of x] by (simp add: field_simps)
  then have "n \<le> round_half_even (x / quantum x)"
    using round_half_even_mono [of "of_int n" "x / quantum x"] by (simp add: round_half_even_of_int)
  then have "(of_int n :: rat) \<le> of_int (round_half_even (x / quantum x))" by simp
  then show ?thesis using quantum_pos [of x] by (simp add: round64_quantum [OF assms(1)])
qed

lemma pow2_on_grid:
  assumes "e - 52 \<le> k"
  shows "(2::rat) powi k = of_int (2 ^ nat (k - (e - 52))) * 2 powi (e - 52)"
proof -
  have "(2::rat) powi k = 2 powi ((k - (e - 52)) + (e - 52))" by simp
  also have "\<dots> = 2 powi (k - (e - 52)) * 2 powi (e - 52)" by (rule power_int_add) simp
  also have "(2::rat) powi (k - (e - 52)) = of_int (2 ^ nat (k - (e - 52)))"
    using assms by (simp add: power_int_def)
  finally show ?thesis .
qed

lemma round64_nonneg:
  assumes "0 \<le> x"
  shows "0 \<le> round64 x"
proof (cases "x = 0")
  case True
  then show ?thesis by (simp add: round64_zero)
next
  case False
  then show ?thesis using round64_ge_grid [of x 0] assms by simp
qed

lemma round64_mono:
  assumes "0 \<le> x" "x \<le> y"
  shows "round64 x \<le> round64 y"
proof (cases "x = 0")
  case True
  then show ?thesis using round64_nonneg [of y] assms by (simp add: round64_zero)
next
  case False
  then have x: "0 < x" and y: "0 < y" using assms by auto
  define ex where "ex = max (ilog2 x) (- 1022)"
  define ey where "ey = max (ilog2 y) (- 1022)"
  have qx: "quantum x = 2 powi (ex - 52)" using x by (simp add: quantum_def ex_def)
  have qy: "quantum y = 2 powi (ey - 52)" using y by (simp add: quantum_def ey_def)
  have le: "ex \<le> ey" using ilog2_mono [OF x assms(2)] by (simp add: ex_def ey_def)
  show ?thesis
  proof (cases "ex = ey")
    case True
    then have q: "quantum y = quantum x" by (simp add: qx qy)
    have "x / quantum x \<le> y / quantum x" using assms(2) quantum_pos [of x]
      by (simp add: divide_right_mono)
    then have "round_half_even (x / quantum x) \<le> round_half_even (y / quantum x)"
      by (rule round_half_even_mono)
    then have "(of_int (round_half_even (x / quantum x)) :: rat) \<le> of_int (round_half_even (y / quantum x))"
      by simp
    then show ?thesis using x y quantum_pos [of x]
      by (simp add: round64_quantum q)
  next
    case False
    with le have lt: "ex + 1 \<le> ey" by simp
    then have ey: "ey = ilog2 y" by (auto simp: ey_def ex_def)
    have "x < 2 powi (ilog2 x + 1)" using ilog2_bounds [OF x] by simp
    also have "\<dots> \<le> 2 powi (ex + 1)" by (rule power_int_increasing) (simp_all add: ex_def)
    finally have "x \<le> 2 powi (ex + 1)" by simp
    then have "x \<le> of_int (2 ^ nat (ex + 1 - (ex - 52))) * quantum x"
      using pow2_on_grid [of ex "ex + 1"] by (simp add: qx)
    then have "round64 x \<le> of_int (2 ^ nat (ex + 1 - (ex - 52))) * quantum x"
      using x by (intro round64_le_grid) simp_all
    then have 1: "round64 x \<le> 2 powi (ex + 1)"
      using pow2_on_grid [of ex "ex + 1"] by (simp add: qx)
    have 2: "(2::rat) powi (ex + 1) \<le> 2 powi ey" using lt by (rule power_int_increasing) simp
    have "2 powi ey \<le> y" using ilog2_bounds [OF y] by (simp add: ey)
    then have "of_int (2 ^ nat (ey - (ey - 52))) * quantum y \<le> y"
      using pow2_on_grid [of ey ey] by (simp add: qy)
    then have "of_int (2 ^ nat (ey - (ey - 52))) * quantum y \<le> round64 y"
      using y by (intro round64_ge_grid) simp_all
    then have 3: "2 powi ey \<le> round64 y"
      using pow2_on_grid [of ey ey] by (simp add: qy)
    from 1 2 3 show ?thesis by linarith
  qed
qed

lemma round64_one: "round64 1 = 1"
  by code_simp

lemma round_half_even_less_half:
  assumes "x < of_int n - 1 / 2"
  shows "round_half_even x \<le> n - 1"
proof -
  have "\<lfloor>x\<rfloor> \<le> n - 1" using assms by linarith
  then show ?thesis using assms
    by (auto simp: round_half_even_def Let_def)
qed

lemma round_half_even_tie_even:
  assumes "even n"
  shows "round_half_even (of_int n - 1 / 2) = n"
proof -
  have "\<lfloor>(of_int n :: rat) - 1 / 2\<rfloor> = n - 1" by linarith
  then show ?thesis using assms by (simp add: round_half_even_def Let_def)
qed

lemma quantum_top:
  assumes "2 ^ 1023 \<le> x" "x < 2 ^ 1024"
  shows "quantum x = 2 ^ 971"
proof -
  have "ilog2 x = 1023" using assms by (intro ilog2_unique) simp_all
  moreover have "\<bar>x\<bar> = x" using assms(1) by (simp add: abs_if not_less order_trans [OF _ assms(1)])
  ultimately show ?thesis by (simp add: quantum_def)
qed


lemma round64_pow2:
  assumes "- 1022 \<le> k"
  shows "round64 (2 powi k) = 2 powi k"
proof -
  define x :: rat where "x = 2 powi k"
  have nz: "x \<noteq> 0" by (simp add: x_def)
  have "ilog2 x = k" unfolding x_def
    by (intro ilog2_unique) (simp_all add: power_int_strict_increasing)
  moreover have "\<bar>x\<bar> = x" by (simp add: x_def)
  ultimately have q: "quantum x = 2 powi (k - 52)" using assms by (simp add: quantum_def)
  have g0: "(2::rat) powi k = of_int (2 ^ 52) * 2 powi (k - 52)"
    using pow2_on_grid [of k k] by simp
  have g: "x = of_int (2 ^ 52) * quantum x"
    unfolding q unfolding x_def by (rule g0)
  from g have le: "x \<le> of_int (2 ^ 52) * quantum x" by (rule order_eq_refl)
  from g [symmetric] have ge: "of_int (2 ^ 52) * quantum x \<le> x" by (rule order_eq_refl)
  have "round64 x = of_int (2 ^ 52) * quantum x"
    using round64_le_grid [OF nz le] round64_ge_grid [OF nz ge] by (rule order_antisym)
  also have "\<dots> = x" using g by (rule sym)
  finally show ?thesis unfolding x_def .
qed

lemma round64_pow2_nat: "round64 (2 ^ n) = 2 ^ n"
  using round64_pow2 [of "int n"] by simp

lemma round64_overflow_iff:
  assumes "0 \<le> x"
  shows "2 ^ 1024 \<le> round64 x \<longleftrightarrow> 2 ^ 1024 - 2 ^ 970 \<le> x"
proof
  assume T: "2 ^ 1024 - 2 ^ 970 \<le> x"
  show "2 ^ 1024 \<le> round64 x"
  proof (cases "x < 2 ^ 1024")
    case True
    have lo: "2 ^ 1023 \<le> x" using T by simp
    have q: "quantum x = 2 ^ 971" using lo True by (rule quantum_top)
    have "of_int (2 ^ 53) - 1 / 2 \<le> x / quantum x" using T by (simp add: q field_simps)
    then have "round_half_even (of_int (2 ^ 53) - 1 / 2) \<le> round_half_even (x / quantum x)"
      by (rule round_half_even_mono)
    moreover have "round_half_even (of_int (2 ^ 53) - 1 / 2) = 2 ^ 53"
      by (rule round_half_even_tie_even) simp
    ultimately have "2 ^ 53 \<le> round_half_even (x / quantum x)"
      by (simp only:)
    then have "(of_int (2 ^ 53) :: rat) \<le> of_int (round_half_even (x / quantum x))"
      by (simp only: of_int_le_iff)
    then have "2 ^ 53 * 2 ^ 971 \<le> round64 x" using lo
      by (simp add: round64_quantum q)
    then show ?thesis by simp
  next
    case False
    then have "(2::rat) ^ 1024 \<le> x" by simp
    then have "round64 (2 ^ 1024) \<le> round64 x" by (intro round64_mono) simp_all
    then show ?thesis using round64_pow2_nat [of 1024] by simp
  qed
next
  assume R: "2 ^ 1024 \<le> round64 x"
  show "2 ^ 1024 - 2 ^ 970 \<le> x"
  proof (rule ccontr)
    assume "\<not> 2 ^ 1024 - 2 ^ 970 \<le> x"
    then have T: "x < 2 ^ 1024 - 2 ^ 970" by simp
    show False
    proof (cases "x \<le> 2 ^ 1023")
      case True
      then have "round64 x \<le> round64 (2 ^ 1023)" using assms by (intro round64_mono) simp_all
      then have "round64 x \<le> 2 ^ 1023" using round64_pow2_nat [of 1023] by simp
      with R show False by simp
    next
      case False
      then have lo: "2 ^ 1023 \<le> x" by simp
      have hi: "x < 2 ^ 1024" using T by simp
      have q: "quantum x = 2 ^ 971" using lo hi by (rule quantum_top)
      have "x / quantum x < of_int (2 ^ 53) - 1 / 2" using T by (simp add: q field_simps)
      then have "round_half_even (x / quantum x) \<le> 2 ^ 53 - 1"
        by (rule round_half_even_less_half)
      then have "(of_int (round_half_even (x / quantum x)) :: rat) \<le> of_int (2 ^ 53 - 1)"
        by (simp only: of_int_le_iff)
      then have "round64 x \<le> (2 ^ 53 - 1) * 2 ^ 971" using lo
        by (simp add: round64_quantum q)
      with R show False by simp
    qed
  qed
qed

section \<open>Properties of calculate_prevalence_rate\<close>

lemma int_truediv_nonneg:
  assumes "0 \<le> a" "0 < b"
  shows "int_truediv a b =
    (if 2 ^ 1024 - 2 ^ 970 \<le> (of_int a / of_int b :: rat) then Inl OverflowError
     else Inr (Finite (round64 (of_int a / of_int b))))"
proof -
  have q: "0 \<le> (of_int a / of_int b :: rat)" using assms by simp
  then have "\<bar>round64 (of_int a / of_int b)\<bar> = round64 (of_int a / of_int b)"
    using round64_nonneg by simp
  then show ?thesis using assms(2) round64_overflow_iff [OF q]
    by (simp add: int_truediv_def Let_def)
qed

lemma calculate_prevalence_rate_nonneg:
  assumes "0 < population" "0 \<le> diagnosed_cases" "0 < total_condition_reports"
    "0 \<le> specific_condition_count"
  shows "snd (calculate_prevalence_rate population diagnosed_cases total_condition_reports
             specific_condition_count) =
        (if 2 ^ 1024 - 2 ^ 970 \<le> (of_int diagnosed_cases / of_int population :: rat) \<or>
            2 ^ 1024 - 2 ^ 970
              \<le> (of_int specific_condition_count / of_int total_condition_reports :: rat)
         then Inl OverflowError
         else Inr (fl (round64 (of_int diagnosed_cases / of_int population) *
                       round64 (of_int specific_condition_count / of_int total_condition_reports))))"
  using assms
  by (simp add: calculate_prevalence_rate_def int_truediv_nonneg Let_def del: power_numeral)

text \<open>The scenario of the spec: \<^verbatim>\<open>40 / 100\<close>, \<^verbatim>\<open>10 / 50\<close> and their product, in binary64.\<close>

lemma round64_2_5: "round64 (2 / 5) = 3602879701896397 / 9007199254740992"
  by code_simp

lemma round64_1_5: "round64 (1 / 5) = 3602879701896397 / 18014398509481984"
  by code_simp

lemma round64_product_2_5_1_5:
  "round64 (3602879701896397 / 9007199254740992 * (3602879701896397 / 18014398509481984)) =
     1441151880758559 / 18014398509481984"
  by code_simp

lemma round64_2_25: "round64 (2 / 25) = 5764607523034235 / 72057594037927936"
  by code_simp

lemma calculate_prevalence_rate_scenario:
  "snd (calculate_prevalence_rate 100 40 50 10) =
     Inr (Finite (1441151880758559 / 18014398509481984))"
  using round64_product_2_5_1_5
  by (simp add: calculate_prevalence_rate_def int_truediv_nonneg fl_def Let_def
      round64_2_5 round64_1_5)

text \<open>
  Claim C1, as the spec has it: for non-negative integers with \<open>population > 0\<close> and
  \<open>total_condition_reports > 0\<close> the function returns
  \<open>(diagnosed_cases / population) * (specific_condition_count / total_condition_reports)\<close>,
  and for 100, 40, 50, 10 it returns exactly 0.08.  The second part fails: the float
  returned is \<open>1441151880758559 / 2^54\<close> (printed \<^verbatim>\<open>0.08000000000000002\<close>), which is
  neither the number \<open>2 / 25\<close> nor the float that the literal \<^verbatim>\<open>0.08\<close> denotes.
\<close>

theorem calculate_prevalence_rate_scenario_counterexample:
  "snd (calculate_prevalence_rate 100 40 50 10) \<noteq> Inr (fl (2 / 25)) \<and>
   snd (calculate_prevalence_rate 100 40 50 10) \<noteq> Inr (Finite (2 / 25))"
  by (simp add: calculate_prevalence_rate_scenario fl_def round64_2_25)

text \<open>
  Claim C1, amended: for non-negative integers with \<open>population > 0\<close> and
  \<open>total_condition_reports > 0\<close> the function returns the binary64 product of the two
  binary64 quotients (each operation rounded to nearest), unless a quotient is at or
  beyond the overflow threshold \<open>2^1024 - 2^970\<close>, where the division raises
  \<^verbatim>\<open>OverflowError\<close>; for 100, 40, 50, 10 it returns \<open>1441151880758559 / 2^54\<close>, which is
  within \<open>2^-55\<close> of \<open>0.08\<close>.
\<close>

theorem calculate_prevalence_rate_value:
  "(0 < population \<and> 0 \<le> diagnosed_cases \<and> 0 < total_condition_reports \<and>
    0 \<le> specific_condition_count \<longrightarrow>
      snd (calculate_prevalence_rate population diagnosed_cases total_condition_reports
             specific_condition_count) =
        (if 2 ^ 1024 - 2 ^ 970 \<le> (of_int diagnosed_cases / of_int population :: rat) \<or>
            2 ^ 1024 - 2 ^ 970
              \<le> (of_int specific_condition_count / of_int total_condition_reports :: rat)
         then Inl OverflowError
         else Inr (fl (round64 (of_int diagnosed_cases / of_int population) *
                       round64 (of_int specific_condition_count / of_int total_condition_reports)))))
   \<and> snd (calculate_prevalence_rate 100 40 50 10) =
         Inr (Finite (1441151880758559 / 2 ^ 54))
   \<and> \<bar>1441151880758559 / 2 ^ 54 - 2 / 25\<bar> < (1 / 2 ^ 55 :: rat)"
  using calculate_prevalence_rate_nonneg calculate_prevalence_rate_scenario by simp

theorem calculate_prevalence_rate_value_witness:
  "0 < (4::int) \<and> 0 \<le> (1::int) \<and> 0 < (2::int) \<and>
   snd (calculate_prevalence_rate 4 1 2 1) = Inr (Finite (1 / 8))"
proof -
  have a: "round64 (1 / 4) = 1 / 4" using round64_pow2 [of "- 2"] by simp
  have b: "round64 (1 / 2) = 1 / 2" using round64_pow2 [of "- 1"] by simp
  have c: "round64 (1 / 8) = 1 / 8" using round64_pow2 [of "- 3"] by simp
  from calculate_prevalence_rate_value [of 4 1 2 1] show ?thesis
    by (simp add: a b c fl_def)
qed

lemma fl_nonneg:
  assumes "0 \<le> x"
  shows "fl x = (if 2 ^ 1024 - 2 ^ 970 \<le> x then PosInf else Finite (round64 x))"
proof -
  have "\<not> round64 x \<le> - (2 ^ 1024)" using round64_nonneg [OF assms]
    by (simp add: not_le)
  then show ?thesis using round64_overflow_iff [OF assms] by (simp add: fl_def Let_def)
qed

lemma round64_unit:
  assumes "0 \<le> x" "x \<le> 1"
  shows "0 \<le> round64 x \<and> round64 x \<le> 1"
  using round64_nonneg [OF assms(1)] round64_mono [OF assms] by (simp add: round64_one)

lemma fl_unit:
  assumes "0 \<le> x" "x \<le> 1"
  shows "fl x = Finite (round64 x)"
proof -
  have "x < 2 ^ 1024 - 2 ^ 970" using assms(2) by (rule le_less_trans) simp
  then show ?thesis using assms(1) by (simp add: fl_nonneg)
qed

lemma fl_mono:
  assumes "0 \<le> x" "x \<le> y"
  shows "fle (fl x) (fl y)"
proof -
  have y: "0 \<le> y" using assms by simp
  show ?thesis using round64_mono [OF assms] assms
    by (auto simp: fl_nonneg [OF assms(1)] fl_nonneg [OF y])
qed

lemma calculate_prevalence_rate_zero_population:
  "calculate_prevalence_rate 0 diagnosed_cases total_condition_reports specific_condition_count =
     ([Log INFO ''Calculating prevalence rate for a specific mental health condition.'' [],
       Log ERROR ''Population cannot be zero.'' []], Inr (Finite 0))"
  by (simp add: calculate_prevalence_rate_def)

lemma calculate_prevalence_rate_zero_total:
  assumes "0 < population" "0 \<le> diagnosed_cases"
  shows "snd (calculate_prevalence_rate population diagnosed_cases 0 specific_condition_count) =
    (if 2 ^ 1024 - 2 ^ 970 \<le> (of_int diagnosed_cases / of_int population :: rat)
     then Inl OverflowError else Inr (Finite 0))"
  using assms
  by (simp add: calculate_prevalence_rate_def int_truediv_nonneg Let_def fl_def round64_zero
      del: power_numeral)



lemma calculate_prevalence_rate_subset_counts:
  assumes "0 < population" "0 \<le> diagnosed_cases" "diagnosed_cases \<le> population"
    "0 \<le> total_condition_reports" "0 \<le> specific_condition_count"
    "specific_condition_count \<le> total_condition_reports"
  shows "\<exists>x. snd (calculate_prevalence_rate population diagnosed_cases total_condition_reports
                  specific_condition_count) = Inr (Finite x) \<and> 0 \<le> x \<and> x \<le> 1"
proof -
  let ?a = "of_int diagnosed_cases / of_int population :: rat"
  let ?b = "of_int specific_condition_count / of_int total_condition_reports :: rat"
  have a: "0 \<le> ?a" "?a \<le> 1" using assms by simp_all
  have ra: "0 \<le> round64 ?a" "round64 ?a \<le> 1" using round64_unit [OF a] by simp_all
  have aT: "?a < 2 ^ 1024 - 2 ^ 970" using a(2) by (rule le_less_trans) simp
  show ?thesis
  proof (cases "total_condition_reports = 0")
    case True
    then show ?thesis using assms aT
      by (simp add: calculate_prevalence_rate_zero_total not_le del: power_numeral)
  next
    case False
    then have t: "0 < total_condition_reports" using assms by simp
    have b: "0 \<le> ?b" "?b \<le> 1" using assms t by simp_all
    have rb: "0 \<le> round64 ?b" "round64 ?b \<le> 1" using round64_unit [OF b] by simp_all
    have bT: "?b < 2 ^ 1024 - 2 ^ 970" using b(2) by (rule le_less_trans) simp
    have p: "0 \<le> round64 ?a * round64 ?b" "round64 ?a * round64 ?b \<le> 1"
      using ra rb by (simp_all add: mult_le_one)
    have "snd (calculate_prevalence_rate population diagnosed_cases total_condition_reports
                  specific_condition_count) = Inr (Finite (round64 (round64 ?a * round64 ?b)))"
      using assms t aT bT
      by (simp add: calculate_prevalence_rate_nonneg fl_unit [OF p] not_le del: power_numeral)
    then show ?thesis using round64_unit [OF p] by simp
  qed
qed

lemma calculate_prevalence_rate_warns:
  "Log WARNING ''Diagnosed cases exceed the total population. Check data.'' []
     \<in> set (fst (calculate_prevalence_rate population diagnosed_cases total_condition_reports
                    specific_condition_count))
   \<longleftrightarrow> population \<noteq> 0 \<and> population < diagnosed_cases"
  by (auto simp: calculate_prevalence_rate_def Let_def split: sum.splits)

lemma calculate_prevalence_rate_warning_level:
  "WARNING \<in> level ` set (fst (calculate_prevalence_rate population diagnosed_cases
                               total_condition_reports specific_condition_count))
   \<longleftrightarrow> population \<noteq> 0 \<and> population < diagnosed_cases"
  by (auto simp: calculate_prevalence_rate_def Let_def split: sum.splits)


lemma calculate_prevalence_rate_mono:
  assumes "0 < population" "0 < total_condition_reports"
    "0 \<le> d" "d \<le> d'" "0 \<le> c" "c \<le> c'"
    "snd (calculate_prevalence_rate population d' total_condition_reports c') = Inr r'"
  shows "\<exists>r. snd (calculate_prevalence_rate population d total_condition_reports c) = Inr r \<and>
             fle r r'"
proof -
  let ?T = "2 ^ 1024 - 2 ^ 970 :: rat"
  let ?a = "of_int d / of_int population :: rat"
  let ?a' = "of_int d' / of_int population :: rat"
  let ?b = "of_int c / of_int total_condition_reports :: rat"
  let ?b' = "of_int c' / of_int total_condition_reports :: rat"
  have a: "0 \<le> ?a" "?a \<le> ?a'" using assms by (simp_all add: divide_right_mono)
  have b: "0 \<le> ?b" "?b \<le> ?b'" using assms by (simp_all add: divide_right_mono)
  have d': "0 \<le> d'" and c': "0 \<le> c'" using assms by simp_all
  from assms(7) have T: "?a' < ?T" "?b' < ?T" and r': "r' = fl (round64 ?a' * round64 ?b')"
    using assms(1,2) d' c'
    by (simp_all add: calculate_prevalence_rate_nonneg not_le del: power_numeral split: if_splits)
  have T2: "?a < ?T" "?b < ?T" using a b T by simp_all
  have eq: "snd (calculate_prevalence_rate population d total_condition_reports c) =
      Inr (fl (round64 ?a * round64 ?b))"
    using assms(1,2,3,5) T2
    by (simp add: calculate_prevalence_rate_nonneg not_le del: power_numeral)
  have ra: "0 \<le> round64 ?a" "round64 ?a \<le> round64 ?a'"
    using round64_nonneg [OF a(1)] round64_mono [OF a] by simp_all
  have rb: "0 \<le> round64 ?b" "round64 ?b \<le> round64 ?b'"
    using round64_nonneg [OF b(1)] round64_mono [OF b] by simp_all
  have "0 \<le> round64 ?a * round64 ?b" using ra rb by simp
  moreover have "round64 ?a * round64 ?b \<le> round64 ?a' * round64 ?b'"
    using ra rb by (intro mult_mono) simp_all
  ultimately have "fle (fl (round64 ?a * round64 ?b)) (fl (round64 ?a' * round64 ?b'))"
    by (rule fl_mono)
  then show ?thesis using eq r' by simp
qed


lemma round64_1_4: "round64 (1 / 4) = 1 / 4" using round64_pow2 [of "- 2"] by simp
lemma round64_1_2: "round64 (1 / 2) = 1 / 2" using round64_pow2 [of "- 1"] by simp
lemma round64_1_8: "round64 (1 / 8) = 1 / 8" using round64_pow2 [of "- 3"] by simp

lemma cpr_4_2_2_1: "snd (calculate_prevalence_rate 4 2 2 1) = Inr (Finite (1 / 4))"
  by (simp add: calculate_prevalence_rate_nonneg fl_nonneg round64_1_2 round64_1_4)


text \<open>
  For non-negative integers the function returns a float exactly when \<open>population = 0\<close>, or
  \<open>diagnosed_cases / population\<close> is below \<open>2^1024 - 2^970\<close> and
  \<open>total_condition_reports = 0\<close> or \<open>specific_condition_count / total_condition_reports\<close> is
  below that threshold too; the only exception it raises is \<^verbatim>\<open>OverflowError\<close>.  For
  \<open>population = 0\<close> it logs the error and returns \<^verbatim>\<open>0.0\<close> whatever the other arguments are;
  for \<open>total_condition_reports = 0\<close> it returns \<^verbatim>\<open>0.0\<close> whatever \<open>specific_condition_count\<close>
  is, when the first quotient is below the threshold.
\<close>

lemma calculate_prevalence_rate_returns:
  assumes "0 \<le> population" "0 \<le> diagnosed_cases" "0 \<le> total_condition_reports"
    "0 \<le> specific_condition_count"
  shows "((\<exists>r. snd (calculate_prevalence_rate population diagnosed_cases
                    total_condition_reports specific_condition_count) = Inr r) \<longleftrightarrow>
            population = 0 \<or>
            (of_int diagnosed_cases / of_int population :: rat) < 2 ^ 1024 - 2 ^ 970 \<and>
            (total_condition_reports = 0 \<or>
             (of_int specific_condition_count / of_int total_condition_reports :: rat)
               < 2 ^ 1024 - 2 ^ 970))
     \<and> (\<forall>e. snd (calculate_prevalence_rate population diagnosed_cases
                    total_condition_reports specific_condition_count) = Inl e \<longrightarrow>
              e = OverflowError)
     \<and> calculate_prevalence_rate 0 diagnosed_cases total_condition_reports
            specific_condition_count =
          ([Log INFO ''Calculating prevalence rate for a specific mental health condition.'' [],
            Log ERROR ''Population cannot be zero.'' []], Inr (Finite 0))
     \<and> ((of_int diagnosed_cases / of_int population :: rat) < 2 ^ 1024 - 2 ^ 970 \<longrightarrow>
          snd (calculate_prevalence_rate population diagnosed_cases 0
                 specific_condition_count) = Inr (Finite 0))"
proof -
  consider (zero) "population = 0"
    | (no_reports) "0 < population" "total_condition_reports = 0"
    | (both) "0 < population" "0 < total_condition_reports"
    using assms by linarith
  then show ?thesis
  proof cases
    case zero
    then show ?thesis by (simp add: calculate_prevalence_rate_zero_population)
  next
    case no_reports
    then show ?thesis using assms
      by (simp add: calculate_prevalence_rate_zero_total calculate_prevalence_rate_zero_population
          not_le del: power_numeral)
  next
    case both
    then show ?thesis using assms
      by (simp add: calculate_prevalence_rate_nonneg calculate_prevalence_rate_zero_total
          calculate_prevalence_rate_zero_population not_le del: power_numeral)
  qed
qed

text \<open>
  Claim C2: the function never raises for non-negative integers; it returns \<^verbatim>\<open>0.0\<close> for
  \<open>population = 0\<close>, and for \<open>total_condition_reports = 0\<close> the result is \<^verbatim>\<open>0.0\<close> whatever
  \<open>specific_condition_count\<close> is.  The docstring says the same ("Raises: None").  The code
  guards the zero denominators only: for one person and \<open>2^1024\<close> diagnosed cases it logs
  the warning and then \<^verbatim>\<open>diagnosed_cases / population\<close> raises \<^verbatim>\<open>OverflowError\<close>, also when
  \<open>total_condition_reports\<close> is \<open>0\<close>.
\<close>

theorem calculate_prevalence_rate_overflow:
  "calculate_prevalence_rate 1 (2 ^ 1024) 1 1 =
     ([Log INFO ''Calculating prevalence rate for a specific mental health condition.'' [],
       Log WARNING ''Diagnosed cases exceed the total population. Check data.'' []],
      Inl OverflowError) \<and>
   snd (calculate_prevalence_rate 1 (2 ^ 1024) 0 1) = Inl OverflowError"
  by (simp add: calculate_prevalence_rate_def int_truediv_nonneg)

text \<open>
  Claim C6, as the spec has it: the rate is in \<open>[0, 1]\<close> whenever \<open>population\<close> and
  \<open>total_condition_reports\<close> are positive, also when \<open>diagnosed_cases > population\<close>.  With
  one person and two diagnosed cases the rate is \<^verbatim>\<open>2.0\<close>.
\<close>

theorem calculate_prevalence_rate_unclamped_counterexample:
  "snd (calculate_prevalence_rate 1 2 1 1) = Inr (Finite 2) \<and> \<not> (2::rat) \<le> 1"
proof -
  have a: "round64 2 = 2" using round64_pow2 [of 1] by simp
  have b: "round64 1 = 1" by (rule round64_one)
  show ?thesis by (simp add: calculate_prevalence_rate_nonneg a b fl_nonneg)
qed

text \<open>
  Claim C6, amended: the rate is a finite float in \<open>[0, 1]\<close> whenever \<open>population\<close> is
  positive and each numerator lies between \<open>0\<close> and its denominator; it is \<^verbatim>\<open>0.0\<close> when
  \<open>population\<close> is \<open>0\<close>; the warning is logged exactly when \<open>population \<noteq> 0\<close> and
  \<open>diagnosed_cases > population\<close>, and the computation goes on with the data as given.
\<close>

theorem calculate_prevalence_rate_range:
  "(0 < population \<and> 0 \<le> diagnosed_cases \<and> diagnosed_cases \<le> population \<and>
    0 \<le> specific_condition_count \<and> specific_condition_count \<le> total_condition_reports \<longrightarrow>
      (\<exists>x. snd (calculate_prevalence_rate population diagnosed_cases total_condition_reports
                   specific_condition_count) = Inr (Finite x) \<and> 0 \<le> x \<and> x \<le> 1))
   \<and> snd (calculate_prevalence_rate 0 diagnosed_cases total_condition_reports
             specific_condition_count) = Inr (Finite 0)
   \<and> (WARNING \<in> level ` set (fst (calculate_prevalence_rate population diagnosed_cases
                                    total_condition_reports specific_condition_count))
        \<longleftrightarrow> population \<noteq> 0 \<and> population < diagnosed_cases)"
proof (intro conjI impI)
  assume "0 < population \<and> 0 \<le> diagnosed_cases \<and> diagnosed_cases \<le> population \<and>
    0 \<le> specific_condition_count \<and> specific_condition_count \<le> total_condition_reports"
  then show "\<exists>x. snd (calculate_prevalence_rate population diagnosed_cases
      total_condition_reports specific_condition_count) = Inr (Finite x) \<and> 0 \<le> x \<and> x \<le> 1"
    by (intro calculate_prevalence_rate_subset_counts) simp_all
next
  show "snd (calculate_prevalence_rate 0 diagnosed_cases total_condition_reports
             specific_condition_count) = Inr (Finite 0)"
    by (simp add: calculate_prevalence_rate_zero_population)
next
  show "WARNING \<in> level ` set (fst (calculate_prevalence_rate population diagnosed_cases
                                    total_condition_reports specific_condition_count))
        \<longleftrightarrow> population \<noteq> 0 \<and> population < diagnosed_cases"
    by (rule calculate_prevalence_rate_warning_level)
qed

theorem calculate_prevalence_rate_range_witness:
  "0 < (4::int) \<and> 0 \<le> (1::int) \<and> (1::int) \<le> 4 \<and> (1::int) \<le> 2 \<and>
   (\<exists>x. snd (calculate_prevalence_rate 4 1 2 1) = Inr (Finite x) \<and> 0 \<le> x \<and> x \<le> 1) \<and>
   WARNING \<notin> level ` set (fst (calculate_prevalence_rate 4 1 2 1))"
  using calculate_prevalence_rate_range [of 4 1 1 2] by simp

text \<open>
  Claim C8: for fixed positive \<open>population\<close> and \<open>total_condition_reports\<close> (and
  non-negative counts) the rate is non-decreasing in \<open>diagnosed_cases\<close> and in
  \<open>specific_condition_count\<close>: when the call with the larger argument returns \<open>r'\<close>, the
  call with the smaller one returns too, an \<open>r\<close> with \<^verbatim>\<open>r <= r'\<close>.
\<close>

theorem calculate_prevalence_rate_monotone:
  assumes "0 < population" "0 < total_condition_reports"
    "0 \<le> diagnosed_cases" "0 \<le> specific_condition_count"
  shows "(diagnosed_cases \<le> d' \<longrightarrow>
           snd (calculate_prevalence_rate population d' total_condition_reports
                  specific_condition_count) = Inr r' \<longrightarrow>
           (\<exists>r. snd (calculate_prevalence_rate population diagnosed_cases
                        total_condition_reports specific_condition_count) = Inr r \<and> fle r r'))
       \<and> (specific_condition_count \<le> c' \<longrightarrow>
           snd (calculate_prevalence_rate population diagnosed_cases total_condition_reports c')
             = Inr r'' \<longrightarrow>
           (\<exists>r. snd (calculate_prevalence_rate population diagnosed_cases
                        total_condition_reports specific_condition_count) = Inr r \<and> fle r r''))"
  using assms calculate_prevalence_rate_mono [of population total_condition_reports]
  by (meson order_refl)


theorem calculate_prevalence_rate_monotone_witness:
  "0 < (4::int) \<and> 0 < (2::int) \<and> 0 \<le> (1::int) \<and> (1::int) \<le> 2 \<and>
   snd (calculate_prevalence_rate 4 2 2 1) = Inr (Finite (1 / 4)) \<and>
   (\<exists>r. snd (calculate_prevalence_rate 4 1 2 1) = Inr r \<and> fle r (Finite (1 / 4)))"
  using calculate_prevalence_rate_monotone [of 4 2 1 1 2 "Finite (1 / 4)"] cpr_4_2_2_1
  by simp

section \<open>Properties of calculate_disorder_prevalence\<close>

lemma length_filter_conj_le: "length (filter (\<lambda>r. P r \<and> Q r) xs) \<le> length (filter P xs)"
  by (induction xs) auto

lemma calculate_disorder_prevalence_snd:
  "snd (calculate_disorder_prevalence df disorder_name) =
     (let df_2016 = filter (\<lambda>r. SurveyID r = 2016) df
      in snd (calculate_prevalence_rate
        (int (length (filter (\<lambda>r. questiontext r = main_question) df_2016)))
        (int (length (filter
            (\<lambda>r. questiontext r = main_question \<and> AnswerText r = ''Yes'') df_2016)))
        (int (length (filter (\<lambda>r. questiontext r = follow_up_question) df_2016)))
        (int (length (filter
            (\<lambda>r. questiontext r = follow_up_question \<and> AnswerText r = disorder_name) df_2016)))))"
  by (simp add: calculate_disorder_prevalence_def Let_def split: prod.splits)

lemma calculate_disorder_prevalence_levels:
  "level ` set (fst (calculate_disorder_prevalence df disorder_name)) =
     (let df_2016 = filter (\<lambda>r. SurveyID r = 2016) df
      in insert INFO (level ` set (fst (calculate_prevalence_rate
        (int (length (filter (\<lambda>r. questiontext r = main_question) df_2016)))
        (int (length (filter
            (\<lambda>r. questiontext r = main_question \<and> AnswerText r = ''Yes'') df_2016)))
        (int (length (filter (\<lambda>r. questiontext r = follow_up_question) df_2016)))
        (int (length (filter
            (\<lambda>r. questiontext r = follow_up_question \<and> AnswerText r = disorder_name) df_2016)))))))"
  by (auto simp add: calculate_disorder_prevalence_def Let_def split: prod.splits sum.splits)

lemma calculate_disorder_prevalence_unit:
  "\<exists>x. snd (calculate_disorder_prevalence df disorder_name) = Inr (Finite x) \<and> 0 \<le> x \<and> x \<le> 1"
proof -
  define df_2016 where "df_2016 = filter (\<lambda>r. SurveyID r = 2016) df"
  define p where "p = int (length (filter (\<lambda>r. questiontext r = main_question) df_2016))"
  define d where "d = int (length (filter
            (\<lambda>r. questiontext r = main_question \<and> AnswerText r = ''Yes'') df_2016))"
  define t where "t = int (length (filter (\<lambda>r. questiontext r = follow_up_question) df_2016))"
  define c where "c = int (length (filter
            (\<lambda>r. questiontext r = follow_up_question \<and> AnswerText r = disorder_name) df_2016))"
  have eq: "snd (calculate_disorder_prevalence df disorder_name) =
      snd (calculate_prevalence_rate p d t c)"
    by (simp add: calculate_disorder_prevalence_snd Let_def p_def d_def t_def c_def df_2016_def)
  have b: "0 \<le> p" "0 \<le> d" "d \<le> p" "0 \<le> t" "0 \<le> c" "c \<le> t"
    by (simp_all add: p_def d_def t_def c_def length_filter_conj_le)
  show ?thesis
  proof (cases "p = 0")
    case True
    then show ?thesis by (simp add: eq calculate_prevalence_rate_zero_population)
  next
    case False
    then have "0 < p" using b by simp
    then show ?thesis unfolding eq using b
      by (intro calculate_prevalence_rate_subset_counts)
  qed
qed

lemma questions_differ: "main_question \<noteq> follow_up_question"
  by (simp add: main_question_def follow_up_question_def)

lemmas example_rows = row_yes_def row_no_def row_anxiety_def row_2014_def questions_differ
  questions_differ [symmetric]

lemma example_rates:
  "snd (calculate_disorder_prevalence example_df ''Anxiety'') = Inr (Finite (1 / 2))"
  "snd (calculate_disorder_prevalence [row_yes, row_no, row_anxiety] ''Anxiety'')
     = Inr (Finite (1 / 2))"
  "snd (calculate_disorder_prevalence [row_no, row_yes, row_anxiety] ''Anxiety'')
     = Inr (Finite (1 / 2))"
  by (simp_all add: calculate_disorder_prevalence_snd example_df_def example_rows
      calculate_prevalence_rate_nonneg fl_nonneg round64_1_2 round64_one)

text \<open>
  Claim C10: for every frame and disorder name the four counts that
  \<^verbatim>\<open>calculate_disorder_prevalence\<close> derives (and logs) satisfy
  \<open>diagnosed_cases \<le> population\<close> and \<open>disorder_reports \<le> total_condition_reports\<close>, its
  result is \<^verbatim>\<open>calculate_prevalence_rate\<close> of these counts, no record of level
  \<^verbatim>\<open>WARNING\<close> is logged, and the result is a finite float in \<open>[0, 1]\<close>.
\<close>

theorem calculate_disorder_prevalence_counts:
  "(let df_2016 = filter (\<lambda>r. SurveyID r = 2016) df;
        population = int (length (filter (\<lambda>r. questiontext r = main_question) df_2016));
        diagnosed_cases = int (length (filter
          (\<lambda>r. questiontext r = main_question \<and> AnswerText r = ''Yes'') df_2016));
        total_condition_reports = int (length (filter
          (\<lambda>r. questiontext r = follow_up_question) df_2016));
        disorder_reports = int (length (filter
          (\<lambda>r. questiontext r = follow_up_question \<and> AnswerText r = disorder_name) df_2016))
    in diagnosed_cases \<le> population \<and> disorder_reports \<le> total_condition_reports \<and>
       take 4 (fst (calculate_disorder_prevalence df disorder_name)) =
         [Log INFO ''Total Population: {population}'' [IntArg population],
          Log INFO ''Diagnosed Cases: {diagnosed_cases}'' [IntArg diagnosed_cases],
          Log INFO ''Total Condition Reports: {total_condition_reports}''
            [IntArg total_condition_reports],
          Log INFO ''{disorder_name} Reports: {disorder_reports}''
            [StrArg disorder_name, IntArg disorder_reports]] \<and>
       snd (calculate_disorder_prevalence df disorder_name) =
         snd (calculate_prevalence_rate population diagnosed_cases total_condition_reports
                disorder_reports))
   \<and> WARNING \<notin> level ` set (fst (calculate_disorder_prevalence df disorder_name))
   \<and> (\<exists>x. snd (calculate_disorder_prevalence df disorder_name) = Inr (Finite x) \<and>
            0 \<le> x \<and> x \<le> 1)"
proof (intro conjI)
  show "let df_2016 = filter (\<lambda>r. SurveyID r = 2016) df;
        population = int (length (filter (\<lambda>r. questiontext r = main_question) df_2016));
        diagnosed_cases = int (length (filter
          (\<lambda>r. questiontext r = main_question \<and> AnswerText r = ''Yes'') df_2016));
        total_condition_reports = int (length (filter
          (\<lambda>r. questiontext r = follow_up_question) df_2016));
        disorder_reports = int (length (filter
          (\<lambda>r. questiontext r = follow_up_question \<and> AnswerText r = disorder_name) df_2016))
    in diagnosed_cases \<le> population \<and> disorder_reports \<le> total_condition_reports \<and>
       take 4 (fst (calculate_disorder_prevalence df disorder_name)) =
         [Log INFO ''Total Population: {population}'' [IntArg population],
          Log INFO ''Diagnosed Cases: {diagnosed_cases}'' [IntArg diagnosed_cases],
          Log INFO ''Total Condition Reports: {total_condition_reports}''
            [IntArg total_condition_reports],
          Log INFO ''{disorder_name} Reports: {disorder_reports}''
            [StrArg disorder_name, IntArg disorder_reports]] \<and>
       snd (calculate_disorder_prevalence df disorder_name) =
         snd (calculate_prevalence_rate population diagnosed_cases total_condition_reports
                disorder_reports)"
    unfolding Let_def
  proof (intro conjI)
    show "take 4 (fst (calculate_disorder_prevalence df disorder_name)) =
         [Log INFO ''Total Population: {population}'' [IntArg (int (length (filter
            (\<lambda>r. questiontext r = main_question) (filter (\<lambda>r. SurveyID r = 2016) df))))],
          Log INFO ''Diagnosed Cases: {diagnosed_cases}'' [IntArg (int (length (filter
            (\<lambda>r. questiontext r = main_question \<and> AnswerText r = ''Yes'')
            (filter (\<lambda>r. SurveyID r = 2016) df))))],
          Log INFO ''Total Condition Reports: {total_condition_reports}''
            [IntArg (int (length (filter (\<lambda>r. questiontext r = follow_up_question)
               (filter (\<lambda>r. SurveyID r = 2016) df))))],
          Log INFO ''{disorder_name} Reports: {disorder_reports}''
            [StrArg disorder_name, IntArg (int (length (filter
               (\<lambda>r. questiontext r = follow_up_question \<and> AnswerText r = disorder_name)
               (filter (\<lambda>r. SurveyID r = 2016) df))))]]"
      by (simp add: calculate_disorder_prevalence_def Let_def split: prod.splits)
  qed (simp_all only: length_filter_conj_le of_nat_le_iff
      calculate_disorder_prevalence_snd [unfolded Let_def])
next
  define df_2016 where "df_2016 = filter (\<lambda>r. SurveyID r = 2016) df"
  define p where "p = int (length (filter (\<lambda>r. questiontext r = main_question) df_2016))"
  define d where "d = int (length (filter
            (\<lambda>r. questiontext r = main_question \<and> AnswerText r = ''Yes'') df_2016))"
  define t where "t = int (length (filter (\<lambda>r. questiontext r = follow_up_question) df_2016))"
  define c where "c = int (length (filter
            (\<lambda>r. questiontext r = follow_up_question \<and> AnswerText r = disorder_name) df_2016))"
  have "d \<le> p" unfolding d_def p_def by (simp only: of_nat_le_iff length_filter_conj_le)
  then have "WARNING \<notin> level ` set (fst (calculate_prevalence_rate p d t c))"
    unfolding calculate_prevalence_rate_warning_level by simp
  moreover have "level ` set (fst (calculate_disorder_prevalence df disorder_name)) =
      insert INFO (level ` set (fst (calculate_prevalence_rate p d t c)))"
    unfolding calculate_disorder_prevalence_levels Let_def p_def d_def t_def c_def df_2016_def ..
  ultimately show "WARNING \<notin> level ` set (fst (calculate_disorder_prevalence df disorder_name))"
    by simp
next
  show "\<exists>x. snd (calculate_disorder_prevalence df disorder_name) = Inr (Finite x) \<and>
            0 \<le> x \<and> x \<le> 1"
    by (rule calculate_disorder_prevalence_unit)
qed

theorem calculate_disorder_prevalence_counts_witness:
  "snd (calculate_disorder_prevalence example_df ''Anxiety'') = Inr (Finite (1 / 2)) \<and>
   WARNING \<notin> level ` set (fst (calculate_disorder_prevalence example_df ''Anxiety''))"
  using calculate_disorder_prevalence_counts [of example_df "''Anxiety''"] example_rates(1)
  by (simp only:) simp

section \<open>Properties of the bootstrap\<close>

lemma choice_length: "length (fst (choice G a k rng)) = k"
  by (induction k arbitrary: rng) (simp_all add: Let_def case_prod_beta)

lemma sample_length:
  assumes "sample G df n rng = Inr (s, rng')"
  shows "int (length s) = n"
proof -
  from assms have n: "0 \<le> n" and s: "s = map (\<lambda>i. df ! i) (fst (choice G (length df) (nat n) rng))"
    by (auto simp: sample_def Let_def split: if_splits prod.splits)
  show ?thesis using n by (simp add: s choice_length)
qed

lemma sample_returns:
  "(\<exists>res. sample G df n rng = Inr res) \<longleftrightarrow> 0 \<le> n \<and> (df \<noteq> [] \<or> n = 0)"
  by (auto simp: sample_def Let_def split: prod.splits)

lemma sample_size_or_len_ok:
  "0 \<le> sample_size_or_len sample_size df \<and> (df \<noteq> [] \<or> sample_size_or_len sample_size df = 0)
     \<longleftrightarrow> (case sample_size of None \<Rightarrow> True | Some n \<Rightarrow> 0 \<le> n \<and> (n = 0 \<or> df \<noteq> []))"
  by (auto simp: sample_size_or_len_def split: option.splits)

lemma bootstrap_draws_returns:
  "(\<exists>res. bootstrap_draws G main_question_df follow_up_df sample_size rng = Inr res)
     \<longleftrightarrow> draws_ok main_question_df follow_up_df sample_size"
proof (cases "\<exists>res. sample G main_question_df
    (sample_size_or_len sample_size main_question_df) rng = Inr res")
  case True
  then obtain bm rng1 where 1: "sample G main_question_df
    (sample_size_or_len sample_size main_question_df) rng = Inr (bm, rng1)" by auto
  have ok1: "case sample_size of None \<Rightarrow> True
    | Some n \<Rightarrow> 0 \<le> n \<and> (n = 0 \<or> main_question_df \<noteq> [])"
    using True unfolding sample_returns sample_size_or_len_ok .
  have "(\<exists>res. bootstrap_draws G main_question_df follow_up_df sample_size rng = Inr res)
     \<longleftrightarrow> (\<exists>res. sample G follow_up_df (sample_size_or_len sample_size follow_up_df) rng1 = Inr res)"
    by (auto simp: bootstrap_draws_def 1 split: sum.splits)
  also have "\<dots> \<longleftrightarrow> (case sample_size of None \<Rightarrow> True
    | Some n \<Rightarrow> 0 \<le> n \<and> (n = 0 \<or> follow_up_df \<noteq> []))"
    unfolding sample_returns sample_size_or_len_ok ..
  also have "\<dots> \<longleftrightarrow> draws_ok main_question_df follow_up_df sample_size"
    using ok1 by (auto simp: draws_ok_def split: option.splits)
  finally show ?thesis .
next
  case False
  then have no: "\<not> (case sample_size of None \<Rightarrow> True
    | Some n \<Rightarrow> 0 \<le> n \<and> (n = 0 \<or> main_question_df \<noteq> []))"
    unfolding sample_returns sample_size_or_len_ok .
  from False have "\<not> (\<exists>res. bootstrap_draws G main_question_df follow_up_df sample_size rng = Inr res)"
    by (auto simp: bootstrap_draws_def split: sum.splits)
  moreover have "\<not> draws_ok main_question_df follow_up_df sample_size"
    using no by (auto simp: draws_ok_def split: option.splits)
  ultimately show ?thesis by simp
qed

lemma bootstrap_draws_sizes:
  assumes "bootstrap_draws G main_question_df follow_up_df sample_size rng =
    Inr (bootstrap_main, bootstrap_follow_up, rng')"
  shows "int (length bootstrap_main) = sample_size_or_len sample_size main_question_df \<and>
         int (length bootstrap_follow_up) = sample_size_or_len sample_size follow_up_df"
  using assms
  by (auto simp: bootstrap_draws_def split: sum.splits dest: sample_length)

lemma bootstrap_iteration_of_draws:
  assumes "bootstrap_draws G main_question_df follow_up_df sample_size rng =
    Inr (bootstrap_main, bootstrap_follow_up, rng')"
  shows "\<exists>x. bootstrap_iteration G main_question_df follow_up_df disorder_name sample_size rng
            = Inr (Finite x, rng') \<and> 0 \<le> x \<and> x \<le> 1"
proof -
  obtain x where "snd (calculate_disorder_prevalence (bootstrap_main @ bootstrap_follow_up)
      disorder_name) = Inr (Finite x)" "0 \<le> x" "x \<le> 1"
    using calculate_disorder_prevalence_unit by blast
  then show ?thesis by (simp add: bootstrap_iteration_def assms)
qed

lemma bootstrap_iteration_draws:
  assumes "bootstrap_iteration G main_question_df follow_up_df disorder_name sample_size rng
       = Inr (r, rng')"
  shows "\<exists>bootstrap_main bootstrap_follow_up.
           bootstrap_draws G main_question_df follow_up_df sample_size rng =
             Inr (bootstrap_main, bootstrap_follow_up, rng') \<and>
           snd (calculate_disorder_prevalence (bootstrap_main @ bootstrap_follow_up)
                  disorder_name) = Inr r"
  using assms
  by (auto simp: bootstrap_iteration_def Let_def split: sum.splits prod.splits)

lemma bootstrap_iteration_returns:
  "(\<exists>res. bootstrap_iteration G main_question_df follow_up_df disorder_name sample_size rng
       = Inr res) \<longleftrightarrow> draws_ok main_question_df follow_up_df sample_size"
  unfolding bootstrap_draws_returns [of G main_question_df follow_up_df sample_size rng, symmetric]
  using bootstrap_iteration_of_draws bootstrap_iteration_draws
  by (metis prod_cases3 surj_pair)

lemma bootstrap_iteration_unit:
  assumes "bootstrap_iteration G main_question_df follow_up_df disorder_name sample_size rng
       = Inr (r, rng')"
  shows "\<exists>x. r = Finite x \<and> 0 \<le> x \<and> x \<le> 1"
proof -
  from bootstrap_iteration_draws [OF assms] obtain bm bf where
    "bootstrap_draws G main_question_df follow_up_df sample_size rng = Inr (bm, bf, rng')"
    by blast
  from bootstrap_iteration_of_draws [OF this, of disorder_name] show ?thesis
    using assms by auto
qed

lemma bootstrap_iteration_rng:
  assumes "bootstrap_iteration G main_question_df follow_up_df disorder_name sample_size rng
       = Inr (r, rng')"
  shows "rng_at G main_question_df follow_up_df sample_size (Suc k) rng =
         rng_at G main_question_df follow_up_df sample_size k rng'"
  using bootstrap_iteration_draws [OF assms] by auto

lemma bootstrap_loop_result:
  assumes "bootstrap_loop G main_question_df follow_up_df disorder_name sample_size k rng acc
    = Inr rs"
  shows "\<exists>new. rs = acc @ new \<and> length new = k \<and>
    (\<forall>i<k. bootstrap_iteration G main_question_df follow_up_df disorder_name sample_size
              (rng_at G main_question_df follow_up_df sample_size i rng) =
            Inr (new ! i, rng_at G main_question_df follow_up_df sample_size (Suc i) rng))"
  using assms
proof (induction k arbitrary: rng acc rs)
  case 0
  then show ?case by simp
next
  case (Suc k)
  from Suc.prems obtain r rng' where
    it: "bootstrap_iteration G main_question_df follow_up_df disorder_name sample_size rng
           = Inr (r, rng')"
    and rest: "bootstrap_loop G main_question_df follow_up_df disorder_name sample_size k rng'
           (acc @ [r]) = Inr rs"
    by (auto split: sum.splits)
  from Suc.IH [OF rest] obtain new where new: "rs = (acc @ [r]) @ new" "length new = k"
    and steps: "\<forall>i<k. bootstrap_iteration G main_question_df follow_up_df disorder_name
        sample_size (rng_at G main_question_df follow_up_df sample_size i rng') =
      Inr (new ! i, rng_at G main_question_df follow_up_df sample_size (Suc i) rng')"
    by blast
  have shift: "\<And>j. rng_at G main_question_df follow_up_df sample_size (Suc j) rng =
      rng_at G main_question_df follow_up_df sample_size j rng'"
    by (rule bootstrap_iteration_rng [OF it])
  have "\<forall>i<Suc k. bootstrap_iteration G main_question_df follow_up_df disorder_name sample_size
              (rng_at G main_question_df follow_up_df sample_size i rng) =
            Inr ((r # new) ! i, rng_at G main_question_df follow_up_df sample_size (Suc i) rng)"
  proof (intro allI impI)
    fix i assume "i < Suc k"
    show "bootstrap_iteration G main_question_df follow_up_df disorder_name sample_size
              (rng_at G main_question_df follow_up_df sample_size i rng) =
            Inr ((r # new) ! i, rng_at G main_question_df follow_up_df sample_size (Suc i) rng)"
    proof (cases i)
      case 0
      then show ?thesis using it shift [of 0] by simp
    next
      case (Suc j)
      then have "j < k" using \<open>i < Suc k\<close> by simp
      then show ?thesis using steps Suc shift [of j] shift [of "Suc j"] by simp
    qed
  qed
  then show ?case using new by (intro exI [of _ "r # new"]) simp
qed

lemma bootstrap_loop_returns:
  "(\<exists>rs. bootstrap_loop G main_question_df follow_up_df disorder_name sample_size k rng acc
      = Inr rs) \<longleftrightarrow> k = 0 \<or> draws_ok main_question_df follow_up_df sample_size"
proof (induction k arbitrary: rng acc)
  case 0
  then show ?case by simp
next
  case (Suc k)
  show ?case
  proof (cases "draws_ok main_question_df follow_up_df sample_size")
    case True
    then obtain r rng' where it:
      "bootstrap_iteration G main_question_df follow_up_df disorder_name sample_size rng
         = Inr (r, rng')"
      using bootstrap_iteration_returns [of G main_question_df follow_up_df disorder_name
          sample_size rng] by auto
    show ?thesis using True Suc.IH [of rng' "acc @ [r]"] by (simp add: it)
  next
    case False
    then have "\<not> (\<exists>res. bootstrap_iteration G main_question_df follow_up_df disorder_name
        sample_size rng = Inr res)"
      by (simp only: bootstrap_iteration_returns) simp
    then show ?thesis using False by (auto split: sum.splits)
  qed
qed

lemma example_partition:
  "filter (\<lambda>r. SurveyID r = 2016 \<and> questiontext r = main_question) example_df
     = [row_yes, row_no]"
  "filter (\<lambda>r. SurveyID r = 2016 \<and> questiontext r = follow_up_question) example_df
     = [row_anxiety]"
  by (simp_all add: example_df_def example_rows)

lemma example_draws_42:
  "bootstrap_draws counter_generator [row_yes, row_no] [row_anxiety] None 42 =
     Inr ([row_yes, row_no], [row_anxiety], 45)"
  by code_simp

lemma example_draws_45:
  "bootstrap_draws counter_generator [row_yes, row_no] [row_anxiety] None 45 =
     Inr ([row_no, row_yes], [row_anxiety], 48)"
  by code_simp

lemma example_draws_zero:
  "bootstrap_draws counter_generator [row_yes, row_no] [row_anxiety] (Some 0) 42 =
     Inr ([row_yes, row_no], [row_anxiety], 45)"
  by code_simp

lemma example_iterations:
  "bootstrap_iteration counter_generator [row_yes, row_no] [row_anxiety] ''Anxiety'' None 42
     = Inr (Finite (1 / 2), 45)"
  "bootstrap_iteration counter_generator [row_yes, row_no] [row_anxiety] ''Anxiety'' None 45
     = Inr (Finite (1 / 2), 48)"
  by (simp_all add: bootstrap_iteration_def example_draws_42 example_draws_45 example_rates)

lemma example_bootstrap:
  "bootstrap_prevalence_rate counter_generator example_df ''Anxiety'' 2 None 42 =
     Inr (Finite (1 / 2), [Finite (1 / 2), Finite (1 / 2)])"
  by (simp add: bootstrap_prevalence_rate_def example_partition example_rates RandomState_def
      counter_generator_def [THEN arg_cong, of seed_state] numeral_2_eq_2 example_iterations)

lemma bootstrap_prevalence_rate_unfold:
  "bootstrap_prevalence_rate G df disorder_name n_iterations sample_size random_state =
     (case snd (calculate_disorder_prevalence df disorder_name) of
        Inl e \<Rightarrow> Inl e
      | Inr original_rate \<Rightarrow>
          (case RandomState G random_state of
             Inl e \<Rightarrow> Inl e
           | Inr rng \<Rightarrow>
               (case bootstrap_loop G (main_question_rows df) (follow_up_rows df) disorder_name
                       sample_size (nat n_iterations) rng [] of
                  Inl e \<Rightarrow> Inl e
                | Inr bootstrap_rates \<Rightarrow> Inr (original_rate, bootstrap_rates))))"
  by (simp add: bootstrap_prevalence_rate_def main_question_rows_def follow_up_rows_def Let_def
      split: sum.splits)

lemma bootstrap_prevalence_rate_Inr:
  assumes "bootstrap_prevalence_rate G df disorder_name n_iterations sample_size random_state
    = Inr (original_rate, rates)"
  shows "snd (calculate_disorder_prevalence df disorder_name) = Inr original_rate"
    and "RandomState G random_state = Inr (seed_state G random_state)"
    and "bootstrap_loop G (main_question_rows df) (follow_up_rows df) disorder_name
           sample_size (nat n_iterations) (seed_state G random_state) [] = Inr rates"
  using assms
  by (auto simp: bootstrap_prevalence_rate_unfold RandomState_def split: sum.splits if_splits)

lemma bootstrap_prevalence_rate_steps:
  assumes "bootstrap_prevalence_rate G df disorder_name n_iterations sample_size random_state
    = Inr (original_rate, rates)"
  shows "length rates = nat n_iterations"
    and "\<forall>k<nat n_iterations.
      bootstrap_iteration G (main_question_rows df) (follow_up_rows df) disorder_name sample_size
        (rng_at G (main_question_rows df) (follow_up_rows df) sample_size k
           (seed_state G random_state)) =
      Inr (rates ! k, rng_at G (main_question_rows df) (follow_up_rows df) sample_size (Suc k)
           (seed_state G random_state))"
  using bootstrap_loop_result [OF bootstrap_prevalence_rate_Inr(3) [OF assms]] by auto

lemma bootstrap_prevalence_rate_returns:
  "(\<exists>res. bootstrap_prevalence_rate G df disorder_name n_iterations sample_size random_state
      = Inr res) \<longleftrightarrow>
   0 \<le> random_state \<and> random_state < 2 ^ 32 \<and>
   (n_iterations \<le> 0 \<or> draws_ok (main_question_rows df) (follow_up_rows df) sample_size)"
proof -
  obtain x where x: "snd (calculate_disorder_prevalence df disorder_name) = Inr (Finite x)"
    using calculate_disorder_prevalence_unit by blast
  show ?thesis
  proof (cases "0 \<le> random_state \<and> random_state < 2 ^ 32")
    case True
    then have rs: "RandomState G random_state = Inr (seed_state G random_state)"
      by (simp add: RandomState_def)
    have "(\<exists>res. bootstrap_prevalence_rate G df disorder_name n_iterations sample_size
        random_state = Inr res) \<longleftrightarrow>
      (\<exists>rs. bootstrap_loop G (main_question_rows df) (follow_up_rows df) disorder_name
           sample_size (nat n_iterations) (seed_state G random_state) [] = Inr rs)"
      by (auto simp: bootstrap_prevalence_rate_unfold x rs split: sum.splits)
    then show ?thesis using True by (simp only: bootstrap_loop_returns) auto
  next
    case False
    then have "RandomState G random_state = Inl ValueError" by (auto simp: RandomState_def)
    then show ?thesis using False by (auto simp: bootstrap_prevalence_rate_unfold x)
  qed
qed

lemma example_iteration_zero:
  "bootstrap_iteration counter_generator [row_yes, row_no] [row_anxiety] ''Anxiety'' (Some 0) 42
     = Inr (Finite (1 / 2), 45)"
  by (simp add: bootstrap_iteration_def example_draws_zero example_rates)

lemma example_main_follow_up:
  "main_question_rows example_df = [row_yes, row_no]"
  "follow_up_rows example_df = [row_anxiety]"
  by (simp_all add: main_question_rows_def follow_up_rows_def example_partition)

text \<open>
  With the state passed explicitly: in a call that returns, \<open>original_rate\<close> is the rate
  of the frame, the generator is seeded with \<open>random_state\<close>, and iteration \<open>k\<close> draws its
  first sample in the state that the iterations before it have left, its second sample
  in the state that the first draw has left, and leaves the state in which iteration
  \<open>k + 1\<close> starts; entry \<open>k\<close> of \<open>bootstrap_rates\<close> is the rate of these two samples.
\<close>

lemma bootstrap_prevalence_rate_threading:
  "bootstrap_prevalence_rate G df disorder_name n_iterations sample_size random_state
         = Inr (original_rate, rates) \<longrightarrow>
       snd (calculate_disorder_prevalence df disorder_name) = Inr original_rate \<and>
       RandomState G random_state = Inr (seed_state G random_state) \<and>
       (\<forall>k<nat n_iterations. \<exists>bootstrap_main rng1 bootstrap_follow_up.
          sample G (main_question_rows df)
            (sample_size_or_len sample_size (main_question_rows df))
            (rng_at G (main_question_rows df) (follow_up_rows df) sample_size k
               (seed_state G random_state)) = Inr (bootstrap_main, rng1) \<and>
          sample G (follow_up_rows df)
            (sample_size_or_len sample_size (follow_up_rows df)) rng1 =
            Inr (bootstrap_follow_up,
                 rng_at G (main_question_rows df) (follow_up_rows df) sample_size (Suc k)
                   (seed_state G random_state)) \<and>
          snd (calculate_disorder_prevalence (bootstrap_main @ bootstrap_follow_up)
                 disorder_name) = Inr (rates ! k))"
proof (intro conjI impI)
  assume run: "bootstrap_prevalence_rate G df disorder_name n_iterations sample_size random_state
         = Inr (original_rate, rates)"
  show "snd (calculate_disorder_prevalence df disorder_name) = Inr original_rate"
    by (rule bootstrap_prevalence_rate_Inr(1) [OF run])
  show "RandomState G random_state = Inr (seed_state G random_state)"
    by (rule bootstrap_prevalence_rate_Inr(2) [OF run])
  show "\<forall>k<nat n_iterations. \<exists>bootstrap_main rng1 bootstrap_follow_up.
          sample G (main_question_rows df)
            (sample_size_or_len sample_size (main_question_rows df))
            (rng_at G (main_question_rows df) (follow_up_rows df) sample_size k
               (seed_state G random_state)) = Inr (bootstrap_main, rng1) \<and>
          sample G (follow_up_rows df)
            (sample_size_or_len sample_size (follow_up_rows df)) rng1 =
            Inr (bootstrap_follow_up,
                 rng_at G (main_question_rows df) (follow_up_rows df) sample_size (Suc k)
                   (seed_state G random_state)) \<and>
          snd (calculate_disorder_prevalence (bootstrap_main @ bootstrap_follow_up)
                 disorder_name) = Inr (rates ! k)"
  proof (intro allI impI)
    fix k assume "k < nat n_iterations"
    with bootstrap_prevalence_rate_steps(2) [OF run]
    have it: "bootstrap_iteration G (main_question_rows df) (follow_up_rows df) disorder_name
        sample_size
        (rng_at G (main_question_rows df) (follow_up_rows df) sample_size k
           (seed_state G random_state)) =
      Inr (rates ! k, rng_at G (main_question_rows df) (follow_up_rows df) sample_size (Suc k)
           (seed_state G random_state))" by blast
    from bootstrap_iteration_draws [OF it] obtain bm bf where
      dr: "bootstrap_draws G (main_question_rows df) (follow_up_rows df) sample_size
          (rng_at G (main_question_rows df) (follow_up_rows df) sample_size k
             (seed_state G random_state)) =
        Inr (bm, bf, rng_at G (main_question_rows df) (follow_up_rows df) sample_size (Suc k)
             (seed_state G random_state))"
      and rate: "snd (calculate_disorder_prevalence (bm @ bf) disorder_name) = Inr (rates ! k)"
      by blast
    from dr obtain rng1 where
      "sample G (main_question_rows df)
            (sample_size_or_len sample_size (main_question_rows df))
            (rng_at G (main_question_rows df) (follow_up_rows df) sample_size k
               (seed_state G random_state)) = Inr (bm, rng1)"
      "sample G (follow_up_rows df)
            (sample_size_or_len sample_size (follow_up_rows df)) rng1 =
            Inr (bf, rng_at G (main_question_rows df) (follow_up_rows df) sample_size (Suc k)
                   (seed_state G random_state))"
      unfolding bootstrap_draws_def by (auto split: sum.splits)
    with rate show "\<exists>bootstrap_main rng1 bootstrap_follow_up.
          sample G (main_question_rows df)
            (sample_size_or_len sample_size (main_question_rows df))
            (rng_at G (main_question_rows df) (follow_up_rows df) sample_size k
               (seed_state G random_state)) = Inr (bootstrap_main, rng1) \<and>
          sample G (follow_up_rows df)
            (sample_size_or_len sample_size (follow_up_rows df)) rng1 =
            Inr (bootstrap_follow_up,
                 rng_at G (main_question_rows df) (follow_up_rows df) sample_size (Suc k)
                   (seed_state G random_state)) \<and>
          snd (calculate_disorder_prevalence (bootstrap_main @ bootstrap_follow_up)
                 disorder_name) = Inr (rates ! k)"
      by blast
  qed
qed

text \<open>
  With the generator as an object, the call in a world is the state-passing call, and
  it leaves the world with one object more: the generator it has seeded and drawn from.
\<close>

lemma sample_in_Object:
  assumes "r < length (objects w)"
  shows "sample_in G df n (Object r) w =
    (case sample G df n (objects w ! r) of
       Inl e \<Rightarrow> Inl e
     | Inr (rows, rng') \<Rightarrow> Inr (rows, w\<lparr>objects := (objects w)[r := rng']\<rparr>))"
  using assms by (simp add: sample_in_def)

lemma bootstrap_iteration_in_eq:
  assumes "r < length (objects w)"
  shows "bootstrap_iteration_in G main_question_df follow_up_df disorder_name sample_size r w =
    (case bootstrap_iteration G main_question_df follow_up_df disorder_name sample_size
            (objects w ! r) of
       Inl e \<Rightarrow> Inl e
     | Inr (bootstrap_rate, rng') \<Rightarrow>
         Inr (bootstrap_rate, w\<lparr>objects := (objects w)[r := rng']\<rparr>))"
  using assms
  by (simp add: bootstrap_iteration_in_def bootstrap_iteration_def bootstrap_draws_def
      sample_in_Object Let_def split: sum.splits prod.splits)

lemma bootstrap_loop_in_eq:
  assumes "r < length (objects w)"
  shows "bootstrap_loop_in G main_question_df follow_up_df disorder_name sample_size k r w acc =
    (case bootstrap_loop G main_question_df follow_up_df disorder_name sample_size k
            (objects w ! r) acc of
       Inl e \<Rightarrow> Inl e
     | Inr bootstrap_rates \<Rightarrow>
         Inr (bootstrap_rates,
              w\<lparr>objects := (objects w)
                 [r := rng_at G main_question_df follow_up_df sample_size k (objects w ! r)]\<rparr>))"
  using assms
proof (induction k arbitrary: w acc)
  case 0
  then show ?case by simp
next
  case (Suc k)
  show ?case
  proof (cases "bootstrap_iteration G main_question_df follow_up_df disorder_name sample_size
            (objects w ! r)")
    case (Inl e)
    then show ?thesis using Suc.prems by (simp add: bootstrap_iteration_in_eq)
  next
    case (Inr p)
    obtain rate rng' where p: "p = (rate, rng')" by (cases p)
    let ?w = "w\<lparr>objects := (objects w)[r := rng']\<rparr>"
    have it: "bootstrap_iteration G main_question_df follow_up_df disorder_name sample_size
            (objects w ! r) = Inr (rate, rng')" using Inr p by simp
    have r: "r < length (objects ?w)" using Suc.prems by simp
    have at: "objects ?w ! r = rng'" using Suc.prems by simp
    have upd: "(objects ?w)[r := g] = (objects w)[r := g]" for g by simp
    have "bootstrap_loop_in G main_question_df follow_up_df disorder_name sample_size (Suc k) r
        w acc =
      bootstrap_loop_in G main_question_df follow_up_df disorder_name sample_size k r ?w
        (acc @ [rate])"
      using Suc.prems by (simp add: bootstrap_iteration_in_eq it)
    also have "\<dots> = (case bootstrap_loop G main_question_df follow_up_df disorder_name
            sample_size k rng' (acc @ [rate]) of
       Inl e \<Rightarrow> Inl e
     | Inr bootstrap_rates \<Rightarrow>
         Inr (bootstrap_rates,
              w\<lparr>objects := (objects w)
                 [r := rng_at G main_question_df follow_up_df sample_size k rng']\<rparr>))"
      using Suc.IH [OF r, of "acc @ [rate]"] Suc.prems by (auto split: sum.splits)
    finally have eq: "bootstrap_loop_in G main_question_df follow_up_df disorder_name
        sample_size (Suc k) r w acc =
      (case bootstrap_loop G main_question_df follow_up_df disorder_name
            sample_size k rng' (acc @ [rate]) of
       Inl e \<Rightarrow> Inl e
     | Inr bootstrap_rates \<Rightarrow>
         Inr (bootstrap_rates,
              w\<lparr>objects := (objects w)
                 [r := rng_at G main_question_df follow_up_df sample_size k rng']\<rparr>))" .
    have pure: "bootstrap_loop G main_question_df follow_up_df disorder_name sample_size (Suc k)
        (objects w ! r) acc =
      bootstrap_loop G main_question_df follow_up_df disorder_name sample_size k rng'
        (acc @ [rate])"
      by (simp add: it)
    have shift: "rng_at G main_question_df follow_up_df sample_size (Suc k) (objects w ! r) =
      rng_at G main_question_df follow_up_df sample_size k rng'"
      by (rule bootstrap_iteration_rng [OF it])
    show ?thesis by (simp only: eq pure shift)
  qed
qed

lemma bootstrap_prevalence_rate_in_eq:
  "bootstrap_prevalence_rate_in G df disorder_name n_iterations sample_size random_state w =
    (case bootstrap_prevalence_rate G df disorder_name n_iterations sample_size random_state of
       Inl e \<Rightarrow> Inl e
     | Inr res \<Rightarrow>
         Inr (res, w\<lparr>objects := objects w @
           [rng_at G (main_question_rows df) (follow_up_rows df) sample_size (nat n_iterations)
              (seed_state G random_state)]\<rparr>))"
proof (cases "0 \<le> random_state \<and> random_state < 2 ^ 32")
  case False
  then have "RandomState G random_state = Inl ValueError" by (auto simp: RandomState_def)
  then show ?thesis
    by (simp add: bootstrap_prevalence_rate_in_def bootstrap_prevalence_rate_unfold
        new_RandomState_def Let_def split: sum.splits)
next
  case True
  then have rs: "RandomState G random_state = Inr (seed_state G random_state)"
    by (simp add: RandomState_def)
  let ?w0 = "w\<lparr>objects := objects w @ [seed_state G random_state]\<rparr>"
  have r: "length (objects w) < length (objects ?w0)" by simp
  have at: "objects ?w0 ! length (objects w) = seed_state G random_state" by simp
  have upd: "(objects ?w0)[length (objects w) := g] = objects w @ [g]" for g by simp
  show ?thesis
    unfolding bootstrap_prevalence_rate_in_def bootstrap_prevalence_rate_unfold
      new_RandomState_def rs Let_def
    by (simp add: bootstrap_loop_in_eq [OF r] at upd main_question_rows_def follow_up_rows_def
        split: sum.splits)
qed

lemma example_rng_at:
  "rng_at counter_generator [row_yes, row_no] [row_anxiety] None 2 42 = 48"
  by (simp add: numeral_2_eq_2 example_draws_42 example_draws_45)

lemma example_bootstrap_in:
  "bootstrap_prevalence_rate_in counter_generator example_df ''Anxiety'' 2 None 42
     \<lparr>global_rng = 0, objects = []\<rparr> =
   Inr ((Finite (1 / 2), [Finite (1 / 2), Finite (1 / 2)]), \<lparr>global_rng = 0, objects = [48]\<rparr>)"
  by (simp add: bootstrap_prevalence_rate_in_eq example_bootstrap example_main_follow_up
      example_rng_at counter_generator_def [THEN arg_cong, of seed_state])

text \<open>
  What a draw without a generator object gives depends on the world: this is what passing
  \<^verbatim>\<open>rng\<close> to both draws excludes.
\<close>

lemma sample_in_Unset_depends_on_world:
  "sample_in counter_generator [row_yes, row_no] 1 Unset \<lparr>global_rng = 0, objects = []\<rparr> =
     Inr ([row_yes], \<lparr>global_rng = 1, objects = []\<rparr>) \<and>
   sample_in counter_generator [row_yes, row_no] 1 Unset \<lparr>global_rng = 1, objects = []\<rparr> =
     Inr ([row_no], \<lparr>global_rng = 2, objects = []\<rparr>)"
  by (simp add: sample_in_def sample_def counter_generator_def)

text \<open>
  Claim C4: \<^verbatim>\<open>bootstrap_prevalence_rate\<close> is deterministic in its seed.  With the same
  arguments and the same \<open>random_state\<close>, a call in any world and a call in any other world
  give the same \<open>original_rate\<close> and \<open>bootstrap_rates\<close> or raise the same exception, and so
  does a second call in the world that a first call has left.  A call that returns leaves
  the generator of \<^verbatim>\<open>numpy.random\<close> as it was and has created one generator object, seeded
  with \<open>random_state\<close> and moved on by the draws of all iterations; its result is that of the
  state-passing call.
\<close>

theorem bootstrap_prevalence_rate_deterministic:
  "map_sum id fst (bootstrap_prevalence_rate_in G df disorder_name n_iterations sample_size
      random_state w) =
   map_sum id fst (bootstrap_prevalence_rate_in G df disorder_name n_iterations sample_size
      random_state w')
   \<and> (bootstrap_prevalence_rate_in G df disorder_name n_iterations sample_size random_state w
         = Inr (res, w1) \<longrightarrow>
       (\<exists>w2. bootstrap_prevalence_rate_in G df disorder_name n_iterations sample_size
               random_state w1 = Inr (res, w2)) \<and>
       global_rng w1 = global_rng w \<and>
       objects w1 = objects w @
         [rng_at G (main_question_rows df) (follow_up_rows df) sample_size (nat n_iterations)
            (seed_state G random_state)] \<and>
       bootstrap_prevalence_rate G df disorder_name n_iterations sample_size random_state
         = Inr res)"
proof (intro conjI impI)
  show "map_sum id fst (bootstrap_prevalence_rate_in G df disorder_name n_iterations sample_size
      random_state w) =
   map_sum id fst (bootstrap_prevalence_rate_in G df disorder_name n_iterations sample_size
      random_state w')"
    by (simp add: bootstrap_prevalence_rate_in_eq split: sum.splits)
next
  assume run: "bootstrap_prevalence_rate_in G df disorder_name n_iterations sample_size
    random_state w = Inr (res, w1)"
  then have pure: "bootstrap_prevalence_rate G df disorder_name n_iterations sample_size
      random_state = Inr res"
    and w1: "w1 = w\<lparr>objects := objects w @
           [rng_at G (main_question_rows df) (follow_up_rows df) sample_size (nat n_iterations)
              (seed_state G random_state)]\<rparr>"
    by (auto simp: bootstrap_prevalence_rate_in_eq split: sum.splits)
  show "bootstrap_prevalence_rate G df disorder_name n_iterations sample_size random_state
         = Inr res" by (rule pure)
  show "global_rng w1 = global_rng w" by (simp add: w1)
  show "objects w1 = objects w @
         [rng_at G (main_question_rows df) (follow_up_rows df) sample_size (nat n_iterations)
            (seed_state G random_state)]" by (simp add: w1)
  show "\<exists>w2. bootstrap_prevalence_rate_in G df disorder_name n_iterations sample_size
               random_state w1 = Inr (res, w2)"
    by (simp add: bootstrap_prevalence_rate_in_eq pure)
qed

theorem bootstrap_prevalence_rate_deterministic_witness:
  "bootstrap_prevalence_rate_in counter_generator example_df ''Anxiety'' 2 None 42
     \<lparr>global_rng = 0, objects = []\<rparr> =
     Inr ((Finite (1 / 2), [Finite (1 / 2), Finite (1 / 2)]), \<lparr>global_rng = 0, objects = [48]\<rparr>) \<and>
   (\<exists>w2. bootstrap_prevalence_rate_in counter_generator example_df ''Anxiety'' 2 None 42
           \<lparr>global_rng = 0, objects = [48]\<rparr> =
         Inr ((Finite (1 / 2), [Finite (1 / 2), Finite (1 / 2)]), w2)) \<and>
   map_sum id fst (bootstrap_prevalence_rate_in counter_generator example_df ''Anxiety'' 2 None 42
     \<lparr>global_rng = 7, objects = [5]\<rparr>) =
     Inr (Finite (1 / 2), [Finite (1 / 2), Finite (1 / 2)])"
proof -
  note inst = bootstrap_prevalence_rate_deterministic [where G = counter_generator
      and df = example_df and disorder_name = "''Anxiety''" and n_iterations = 2
      and sample_size = None and random_state = 42
      and w = "\<lparr>global_rng = 0, objects = []\<rparr>"
      and w' = "\<lparr>global_rng = 7, objects = [5]\<rparr>"
      and res = "(Finite (1 / 2), [Finite (1 / 2), Finite (1 / 2)])"
      and ?w1.0 = "\<lparr>global_rng = 0, objects = [48]\<rparr>"]
  from inst [THEN conjunct2, THEN mp, OF example_bootstrap_in]
  have again: "\<exists>w2. bootstrap_prevalence_rate_in counter_generator example_df ''Anxiety'' 2 None
      42 \<lparr>global_rng = 0, objects = [48]\<rparr> =
         Inr ((Finite (1 / 2), [Finite (1 / 2), Finite (1 / 2)]), w2)"
    by (rule conjunct1)
  from inst [THEN conjunct1]
  have other: "map_sum id fst (bootstrap_prevalence_rate_in counter_generator example_df
      ''Anxiety'' 2 None 42 \<lparr>global_rng = 7, objects = [5]\<rparr>) =
     Inr (Finite (1 / 2), [Finite (1 / 2), Finite (1 / 2)])"
    by (simp add: example_bootstrap_in)
  from example_bootstrap_in again other show ?thesis by (intro conjI)
qed

text \<open>
  Claim C5: the list \<open>bootstrap_rates\<close> that \<^verbatim>\<open>bootstrap_prevalence_rate\<close> returns has
  \<open>n_iterations\<close> entries (none for \<open>n_iterations \<le> 0\<close>), each a finite float in \<open>[0, 1]\<close>,
  and entry \<open>k\<close> is the rate of iteration \<open>k\<close>.  The call returns when the seed is in
  \<open>0 .. 2^32 - 1\<close> and the draws raise nothing.
\<close>

theorem bootstrap_prevalence_rate_rates:
  "(0 \<le> random_state \<and> random_state < 2 ^ 32 \<and>
    (n_iterations \<le> 0 \<or> draws_ok (main_question_rows df) (follow_up_rows df) sample_size) \<longrightarrow>
      (\<exists>res. bootstrap_prevalence_rate G df disorder_name n_iterations sample_size random_state
         = Inr res))
   \<and> (bootstrap_prevalence_rate G df disorder_name n_iterations sample_size random_state
         = Inr (original_rate, rates) \<longrightarrow>
       length rates = nat n_iterations \<and>
       (\<forall>r\<in>set rates. \<exists>x. r = Finite x \<and> 0 \<le> x \<and> x \<le> 1) \<and>
       (\<forall>k<nat n_iterations. \<exists>rng'.
          bootstrap_iteration G (main_question_rows df) (follow_up_rows df) disorder_name
            sample_size
            (rng_at G (main_question_rows df) (follow_up_rows df) sample_size k
               (seed_state G random_state)) = Inr (rates ! k, rng')))"
proof (intro conjI impI)
  assume "0 \<le> random_state \<and> random_state < 2 ^ 32 \<and>
    (n_iterations \<le> 0 \<or> draws_ok (main_question_rows df) (follow_up_rows df) sample_size)"
  then show "\<exists>res. bootstrap_prevalence_rate G df disorder_name n_iterations sample_size
      random_state = Inr res"
    by (rule iffD2 [OF bootstrap_prevalence_rate_returns])
next
  assume run: "bootstrap_prevalence_rate G df disorder_name n_iterations sample_size random_state
         = Inr (original_rate, rates)"
  note steps = bootstrap_prevalence_rate_steps [OF run]
  show len: "length rates = nat n_iterations" by (rule steps(1))
  show "\<forall>k<nat n_iterations. \<exists>rng'.
          bootstrap_iteration G (main_question_rows df) (follow_up_rows df) disorder_name
            sample_size
            (rng_at G (main_question_rows df) (follow_up_rows df) sample_size k
               (seed_state G random_state)) = Inr (rates ! k, rng')"
  proof (intro allI impI)
    fix k assume "k < nat n_iterations"
    then have "bootstrap_iteration G (main_question_rows df) (follow_up_rows df) disorder_name
            sample_size
            (rng_at G (main_question_rows df) (follow_up_rows df) sample_size k
               (seed_state G random_state)) =
        Inr (rates ! k, rng_at G (main_question_rows df) (follow_up_rows df) sample_size (Suc k)
               (seed_state G random_state))"
      using steps(2) by simp
    then show "\<exists>rng'. bootstrap_iteration G (main_question_rows df) (follow_up_rows df)
            disorder_name sample_size
            (rng_at G (main_question_rows df) (follow_up_rows df) sample_size k
               (seed_state G random_state)) = Inr (rates ! k, rng')"
      by (rule exI)
  qed
  show "\<forall>r\<in>set rates. \<exists>x. r = Finite x \<and> 0 \<le> x \<and> x \<le> 1"
  proof
    fix r assume "r \<in> set rates"
    then obtain k where k: "k < nat n_iterations" "r = rates ! k"
      using len by (auto simp: in_set_conv_nth)
    with steps(2) have "bootstrap_iteration G (main_question_rows df) (follow_up_rows df)
            disorder_name sample_size
            (rng_at G (main_question_rows df) (follow_up_rows df) sample_size k
               (seed_state G random_state)) =
        Inr (r, rng_at G (main_question_rows df) (follow_up_rows df) sample_size (Suc k)
               (seed_state G random_state))"
      by simp
    then show "\<exists>x. r = Finite x \<and> 0 \<le> x \<and> x \<le> 1"
      by (rule bootstrap_iteration_unit)
  qed
qed

theorem bootstrap_prevalence_rate_rates_witness:
  "(0::int) \<le> 42 \<and> (42::int) < 2 ^ 32 \<and>
   draws_ok (main_question_rows example_df) (follow_up_rows example_df) None \<and>
   bootstrap_prevalence_rate counter_generator example_df ''Anxiety'' 2 None 42 =
     Inr (Finite (1 / 2), [Finite (1 / 2), Finite (1 / 2)]) \<and>
   length [Finite (1 / 2), Finite (1 / 2) :: pyfloat] = nat 2 \<and>
   (\<exists>x. [Finite (1 / 2), Finite (1 / 2)] ! 1 = Finite x \<and> 0 \<le> x \<and> x \<le> 1)"
proof -
  have ok: "draws_ok (main_question_rows example_df) (follow_up_rows example_df) None"
    by (simp add: draws_ok_def)
  have seed: "(0::int) \<le> 42 \<and> (42::int) < 2 ^ 32" by simp
  from bootstrap_prevalence_rate_rates [of 42 2 example_df None counter_generator "''Anxiety''"
      "Finite (1 / 2)" "[Finite (1 / 2), Finite (1 / 2)]"]
  have "bootstrap_prevalence_rate counter_generator example_df ''Anxiety'' 2 None 42 =
     Inr (Finite (1 / 2), [Finite (1 / 2), Finite (1 / 2)]) \<longrightarrow>
     length [Finite (1 / 2), Finite (1 / 2) :: pyfloat] = nat 2 \<and>
     (\<forall>r\<in>set [Finite (1 / 2), Finite (1 / 2)]. \<exists>x. r = Finite x \<and> 0 \<le> x \<and> x \<le> 1) \<and>
     (\<forall>k<nat 2. \<exists>rng'.
          bootstrap_iteration counter_generator (main_question_rows example_df)
            (follow_up_rows example_df) ''Anxiety'' None
            (rng_at counter_generator (main_question_rows example_df)
               (follow_up_rows example_df) None k (seed_state counter_generator 42)) =
          Inr ([Finite (1 / 2), Finite (1 / 2)] ! k, rng'))"
    by (rule conjunct2)
  from this example_bootstrap
  have "length [Finite (1 / 2), Finite (1 / 2) :: pyfloat] = nat 2 \<and>
     (\<forall>r\<in>set [Finite (1 / 2), Finite (1 / 2)]. \<exists>x. r = Finite x \<and> 0 \<le> x \<and> x \<le> 1) \<and>
     (\<forall>k<nat 2. \<exists>rng'.
          bootstrap_iteration counter_generator (main_question_rows example_df)
            (follow_up_rows example_df) ''Anxiety'' None
            (rng_at counter_generator (main_question_rows example_df)
               (follow_up_rows example_df) None k (seed_state counter_generator 42)) =
          Inr ([Finite (1 / 2), Finite (1 / 2)] ! k, rng'))"
    by (rule mp)
  then have "length [Finite (1 / 2), Finite (1 / 2) :: pyfloat] = nat 2 \<and>
     (\<exists>x. [Finite (1 / 2), Finite (1 / 2)] ! 1 = Finite x \<and> 0 \<le> x \<and> x \<le> 1)"
    by simp
  with ok seed example_bootstrap show ?thesis by blast
qed

text \<open>
  Claim C7 says that a sample has \<open>sample_size\<close> rows if \<open>sample_size\<close> was given.  For
  \<^verbatim>\<open>sample_size=0\<close> the code draws as many rows as the group has: on the example frame
  the samples have 2 rows and 1 row, and the bootstrap rate is \<^verbatim>\<open>0.5\<close>, where empty
  samples would give \<^verbatim>\<open>0.0\<close>.  For the other sample sizes the lemma
  \<open>bootstrap_draws_sizes\<close> gives the sizes.
\<close>

theorem bootstrap_sample_size_zero:
  "bootstrap_draws counter_generator (main_question_rows example_df) (follow_up_rows example_df)
     (Some 0) 42 = Inr ([row_yes, row_no], [row_anxiety], 45) \<and>
   bootstrap_prevalence_rate counter_generator example_df ''Anxiety'' 1 (Some 0) 42 =
     Inr (Finite (1 / 2), [Finite (1 / 2)])"
  by (simp add: example_main_follow_up example_draws_zero bootstrap_prevalence_rate_unfold
      example_rates RandomState_def counter_generator_def [THEN arg_cong, of seed_state]
      example_iteration_zero)

section \<open>Properties of the interval and of the analysis\<close>

lemma round64_50: "round64 50 = 50"
  by code_simp

lemma round64_100: "round64 100 = 100"
  by code_simp

lemma fl_bounded:
  assumes "0 \<le> x" "x \<le> b" "round64 b = b" "b \<le> 100"
  shows "fl x = Finite (round64 x)" "0 \<le> round64 x" "round64 x \<le> b"
proof -
  have "x \<le> 100" using assms(2,4) by (rule order_trans)
  then have "x < 2 ^ 1024 - 2 ^ 970" by (rule le_less_trans) simp
  then show "fl x = Finite (round64 x)" using assms(1) by (simp add: fl_nonneg)
  show "0 \<le> round64 x" using assms(1) by (rule round64_nonneg)
  show "round64 x \<le> b" using round64_mono [OF assms(1,2)] by (simp add: assms(3))
qed

lemma interpolation_mono:
  fixes s :: "rat list"
  assumes "sorted s" "0 \<le> h" "h \<le> h'" "h' \<le> of_nat (length s - 1)" "s \<noteq> []"
  shows "s ! nat \<lfloor>h\<rfloor> + (h - of_int \<lfloor>h\<rfloor>) * (s ! min (nat \<lfloor>h\<rfloor> + 1) (length s - 1) - s ! nat \<lfloor>h\<rfloor>)
    \<le> s ! nat \<lfloor>h'\<rfloor> + (h' - of_int \<lfloor>h'\<rfloor>) * (s ! min (nat \<lfloor>h'\<rfloor> + 1) (length s - 1) - s ! nat \<lfloor>h'\<rfloor>)"
proof -
  define n where "n = length s"
  define j where "j = nat \<lfloor>h\<rfloor>"
  define j' where "j' = nat \<lfloor>h'\<rfloor>"
  define g where "g = h - of_int \<lfloor>h\<rfloor>"
  define g' where "g' = h' - of_int \<lfloor>h'\<rfloor>"
  have n: "0 < n" using assms(5) by (simp add: n_def)
  have h': "0 \<le> h'" using assms by simp
  have fl: "\<lfloor>h\<rfloor> \<le> \<lfloor>h'\<rfloor>" using assms(3) by (rule floor_mono)
  have "\<lfloor>h'\<rfloor> \<le> int (n - 1)" using assms(4) unfolding n_def
    by (metis floor_mono floor_of_nat)
  then have j'n: "j' \<le> n - 1" unfolding j'_def by simp
  have jj': "j \<le> j'" using fl by (simp add: j_def j'_def nat_mono)
  have g: "0 \<le> g" "g < 1" unfolding g_def by linarith+
  have g': "0 \<le> g'" "g' < 1" unfolding g'_def by linarith+
  have nth: "s ! a \<le> s ! b" if "a \<le> b" "b \<le> n - 1" for a b
  proof -
    have "b < n" using that(2) n by arith
    then have "b < length s" by (simp only: n_def)
    with assms(1) that(1) show ?thesis by (rule sorted_nth_mono)
  qed
  have up: "s ! j \<le> s ! min (j + 1) (n - 1)" using jj' j'n by (intro nth) simp_all
  have up': "s ! j' \<le> s ! min (j' + 1) (n - 1)" using j'n by (intro nth) simp_all
  have lo': "s ! j' \<le> s ! j' + g' * (s ! min (j' + 1) (n - 1) - s ! j')"
    using g' up' by simp
  have hi: "s ! j + g * (s ! min (j + 1) (n - 1) - s ! j) \<le> s ! min (j + 1) (n - 1)"
  proof -
    have "g * (s ! min (j + 1) (n - 1) - s ! j) \<le> 1 * (s ! min (j + 1) (n - 1) - s ! j)"
      using g up by (intro mult_right_mono) simp_all
    then show ?thesis by simp
  qed
  have "s ! j + g * (s ! min (j + 1) (n - 1) - s ! j)
      \<le> s ! j' + g' * (s ! min (j' + 1) (n - 1) - s ! j')"
  proof (cases "j = j'")
    case True
    have "0 \<le> \<lfloor>h\<rfloor>" "0 \<le> \<lfloor>h'\<rfloor>" using assms(2) h' by simp_all
    then have "\<lfloor>h\<rfloor> = \<lfloor>h'\<rfloor>" using True unfolding j_def j'_def by linarith
    then have "g \<le> g'" using assms(3) by (simp add: g_def g'_def)
    then have "g * (s ! min (j + 1) (n - 1) - s ! j) \<le> g' * (s ! min (j + 1) (n - 1) - s ! j)"
      using up by (intro mult_right_mono) simp_all
    then show ?thesis using True by simp
  next
    case False
    then have "j + 1 \<le> j'" using jj' by simp
    then have "s ! min (j + 1) (n - 1) \<le> s ! j'" using j'n by (intro nth) simp_all
    with hi lo' show ?thesis by linarith
  qed
  then show ?thesis by (simp only: j_def j'_def g_def g'_def n_def)
qed

lemma linear_percentile_mono:
  assumes "xs \<noteq> []" "0 \<le> p" "p \<le> p'" "p' \<le> 100"
  shows "linear_percentile xs p \<le> linear_percentile xs p'"
proof -
  let ?s = "sort xs"
  let ?n1 = "of_nat (length ?s - 1) :: rat"
  have n1: "0 \<le> ?n1" by simp
  have 1: "0 \<le> ?n1 * p / 100" using assms(2) by simp
  have 2: "?n1 * p / 100 \<le> ?n1 * p' / 100" using assms(3) n1
    by (simp add: mult_left_mono divide_right_mono)
  have "?n1 * p' / 100 \<le> ?n1 * 100 / 100" using assms(4) n1
    by (intro divide_right_mono mult_left_mono) simp_all
  then have 3: "?n1 * p' / 100 \<le> of_nat (length ?s - 1)" by simp
  have 4: "?s \<noteq> []" using assms(1) by (metis length_0_conv length_sort)
  from interpolation_mono [OF sorted_sort 1 2 3 4]
  show ?thesis by (simp add: linear_percentile_def Let_def)
qed

lemma those_finite_values: "those (map (finite_value \<circ> Finite) xs) = Some xs"
  by (induction xs) simp_all

lemma np_percentile_finite:
  assumes "xs \<noteq> []" "0 \<le> p" "p \<le> 100"
  shows "np_percentile (map Finite xs) (Finite p) = Inr (Finite (linear_percentile xs p))"
  using assms by (simp add: np_percentile_def those_finite_values not_less)

lemma confidence_levels:
  assumes "0 < c" "c < 1"
  defines "a \<equiv> round64 (1 - c)"
  defines "l \<equiv> round64 (a / 2)"
  defines "u \<equiv> round64 (1 - l)"
  shows "fdiv (fsub (Finite 1) (Finite c)) (Finite 2) = Inr (Finite l)"
    and "fsub (Finite 1) (Finite l) = Finite u"
    and "fmul (Finite l) (Finite 100) = Finite (round64 (l * 100))"
    and "fmul (Finite u) (Finite 100) = Finite (round64 (u * 100))"
    and "0 \<le> round64 (l * 100)" and "round64 (l * 100) \<le> 50"
    and "50 \<le> round64 (u * 100)" and "round64 (u * 100) \<le> 100"
proof -
  have A: "fl (1 - c) = Finite a" "0 \<le> a" "a \<le> 1"
    unfolding a_def using assms(1,2) round64_one
    by (intro fl_bounded [where b = 1]; simp)+
  have L: "fl (a / 2) = Finite l" "0 \<le> l" "l \<le> 1 / 2"
    unfolding l_def using A(2,3) round64_1_2
    by (intro fl_bounded [where b = "1 / 2"]; simp)+
  have U: "fl (1 - l) = Finite u" "0 \<le> u" "u \<le> 1"
    unfolding u_def using L(2,3) round64_one
    by (intro fl_bounded [where b = 1]; simp)+
  have "round64 (1 / 2) \<le> round64 (1 - l)" using L(3) by (intro round64_mono) simp_all
  then have U2: "1 / 2 \<le> u" by (simp add: u_def round64_1_2)
  have QL: "fl (l * 100) = Finite (round64 (l * 100))" "0 \<le> round64 (l * 100)"
    "round64 (l * 100) \<le> 50"
    using L(2,3) round64_50
    by (intro fl_bounded [where b = 50]; simp)+
  have QU: "fl (u * 100) = Finite (round64 (u * 100))" "0 \<le> round64 (u * 100)"
    "round64 (u * 100) \<le> 100"
    using U(2,3) round64_100
    by (intro fl_bounded [where b = 100]; simp)+
  have "round64 50 \<le> round64 (u * 100)" using U2 by (intro round64_mono) simp_all
  then have QU2: "50 \<le> round64 (u * 100)" by (simp add: round64_50)
  show "fdiv (fsub (Finite 1) (Finite c)) (Finite 2) = Inr (Finite l)"
    by (simp add: A(1) L(1))
  show "fsub (Finite 1) (Finite l) = Finite u" by (simp add: U(1))
  show "fmul (Finite l) (Finite 100) = Finite (round64 (l * 100))" by (simp add: QL(1))
  show "fmul (Finite u) (Finite 100) = Finite (round64 (u * 100))" by (simp add: QU(1))
  show "0 \<le> round64 (l * 100)" "round64 (l * 100) \<le> 50" by (rule QL(2), rule QL(3))
  show "50 \<le> round64 (u * 100)" "round64 (u * 100) \<le> 100" by (rule QU2, rule QU(3))
qed

lemma calculate_confidence_interval_finite:
  assumes "xs \<noteq> []" "0 < c" "c < 1"
  shows "\<exists>lower_percentile upper_percentile ql qu.
    fdiv (fsub (Finite 1) (Finite c)) (Finite 2) = Inr (Finite lower_percentile) \<and>
    fsub (Finite 1) (Finite lower_percentile) = Finite upper_percentile \<and>
    fmul (Finite lower_percentile) (Finite 100) = Finite ql \<and>
    fmul (Finite upper_percentile) (Finite 100) = Finite qu \<and>
    calculate_confidence_interval (map Finite xs) (Finite c) =
      Inr (Finite (linear_percentile xs ql), Finite (linear_percentile xs qu)) \<and>
    linear_percentile xs ql \<le> linear_percentile xs qu"
proof -
  define l where "l = round64 (round64 (1 - c) / 2)"
  define u where "u = round64 (1 - l)"
  define ql where "ql = round64 (l * 100)"
  define qu where "qu = round64 (u * 100)"
  note lv = confidence_levels [OF assms(2,3), folded l_def, folded u_def, folded ql_def qu_def]
  have ql: "0 \<le> ql" "ql \<le> 100" using lv(5,6) by simp_all
  have qu: "0 \<le> qu" "qu \<le> 100" using lv(7,8) by simp_all
  have le: "ql \<le> qu" using lv(6,7) by simp
  have "calculate_confidence_interval (map Finite xs) (Finite c) =
      Inr (Finite (linear_percentile xs ql), Finite (linear_percentile xs qu))"
    unfolding calculate_confidence_interval_def
    by (simp only: lv(1) lv(2) lv(3) lv(4) Let_def sum.case
        np_percentile_finite [OF assms(1) ql] np_percentile_finite [OF assms(1) qu])
  moreover have "linear_percentile xs ql \<le> linear_percentile xs qu"
    using assms(1) ql(1) le qu(2) by (rule linear_percentile_mono)
  ultimately show ?thesis using lv(1-4) by blast
qed


lemma round64_1_16: "round64 (1 / 16) = 1 / 16" using round64_pow2 [of "- 4"] by simp

lemma round64_15_16: "round64 (15 / 16) = 15 / 16" by code_simp

lemma round64_25_4: "round64 (25 / 4) = 25 / 4" by code_simp

lemma round64_375_4: "round64 (375 / 4) = 375 / 4" by code_simp

lemma example_interval:
  "calculate_confidence_interval (map Finite [1 / 2, 1 / 4, 1]) (Finite (7 / 8)) =
     Inr (Finite (9 / 32), Finite (15 / 16))"
proof -
  have lo: "linear_percentile [1 / 2, 1 / 4, 1] (25 / 4) = 9 / 32"
    by code_simp
  have hi: "linear_percentile [1 / 2, 1 / 4, 1] (375 / 4) = 15 / 16"
    by code_simp
  show ?thesis
    by (simp add: calculate_confidence_interval_def fl_nonneg round64_1_8 round64_1_16
        round64_15_16 round64_25_4 round64_375_4 np_percentile_def lo hi)
qed

lemma those_finite_value_Some:
  "those (map finite_value a) = Some xs \<Longrightarrow> a = map Finite xs"
proof (induction a arbitrary: xs)
  case Nil
  then show ?case by simp
next
  case (Cons r a)
  then show ?case by (cases r) (auto split: option.splits)
qed

lemma finite_list:
  assumes "\<forall>r\<in>set a. \<exists>x. r = Finite x"
  shows "\<exists>xs. a = map Finite xs"
  using assms
proof (induction a)
  case Nil
  then show ?case by simp
next
  case (Cons r a)
  then obtain x xs where "r = Finite x" "a = map Finite xs" by auto
  then have "r # a = map Finite (x # xs)" by simp
  then show ?case by (rule exI)
qed

lemma np_std_population:
  assumes "xs \<noteq> []"
  shows "np_std (map Finite xs) 0 = Inr (population_std xs)"
  using assms
  by (simp add: np_std_def population_std_def those_finite_values of_rat_divide)

lemma bootstrap_prevalence_rate_finite:
  assumes "bootstrap_prevalence_rate G df disorder_name n_iterations sample_size random_state
    = Inr (original_rate, rates)"
  shows "\<exists>xs. rates = map Finite xs \<and> length xs = nat n_iterations"
proof -
  note steps = bootstrap_prevalence_rate_steps [OF assms]
  have "\<forall>r\<in>set rates. \<exists>x. r = Finite x"
  proof
    fix r assume "r \<in> set rates"
    then obtain k where k: "k < nat n_iterations" "r = rates ! k"
      using steps(1) by (auto simp: in_set_conv_nth)
    with steps(2) have "bootstrap_iteration G (main_question_rows df) (follow_up_rows df)
            disorder_name sample_size
            (rng_at G (main_question_rows df) (follow_up_rows df) sample_size k
               (seed_state G random_state)) =
        Inr (r, rng_at G (main_question_rows df) (follow_up_rows df) sample_size (Suc k)
               (seed_state G random_state))"
      by simp
    from bootstrap_iteration_unit [OF this] show "\<exists>x. r = Finite x" by blast
  qed
  then obtain xs where "rates = map Finite xs" using finite_list by blast
  with steps(1) show ?thesis by auto
qed

lemma analyze_disorder_prevalence_Inr:
  assumes "analyze_disorder_prevalence G df disorder_name n_iterations confidence_level
    random_state = Inr res"
  shows "\<exists>original_rate rates lower_bound upper_bound se.
    bootstrap_prevalence_rate G df disorder_name n_iterations None random_state =
      Inr (original_rate, rates) \<and>
    calculate_confidence_interval rates confidence_level = Inr (lower_bound, upper_bound) \<and>
    np_std rates 0 = Inr se \<and>
    res = \<lparr>key_original_rate = original_rate,
           key_confidence_interval = (lower_bound, upper_bound),
           key_bootstrap_rates = rates,
           key_standard_error = se\<rparr>"
  using assms
  by (auto simp: analyze_disorder_prevalence_def split: sum.splits prod.splits)

lemma np_std_Inr:
  assumes "np_std a 0 = Inr se"
  shows "\<exists>xs. a = map Finite xs \<and> xs \<noteq> [] \<and> se = population_std xs"
proof -
  from assms obtain xs where xs: "those (map finite_value a) = Some xs" "xs \<noteq> []"
    by (auto simp: np_std_def split: option.splits if_splits)
  then have a: "a = map Finite xs" by (intro those_finite_value_Some)
  with assms xs(2) have "se = population_std xs" by (simp add: np_std_population)
  with a xs(2) show ?thesis by blast
qed

text \<open>
  Claim C3: for every non-empty list of (finite) rates and every confidence level \<open>c\<close> with
  \<open>0 < c < 1\<close>, \<^verbatim>\<open>calculate_confidence_interval\<close> returns the pair of the percentiles of the
  list, by linear interpolation between its order statistics, at the floats
  \<^verbatim>\<open>((1 - c) / 2) * 100\<close> and \<^verbatim>\<open>(1 - (1 - c) / 2) * 100\<close>, and the first is at most the second.
\<close>

theorem calculate_confidence_interval_percentiles:
  assumes "xs \<noteq> []" "0 < c" "c < 1"
  shows "\<exists>lower_percentile upper_percentile ql qu.
    fdiv (fsub (Finite 1) (Finite c)) (Finite 2) = Inr (Finite lower_percentile) \<and>
    fsub (Finite 1) (Finite lower_percentile) = Finite upper_percentile \<and>
    fmul (Finite lower_percentile) (Finite 100) = Finite ql \<and>
    fmul (Finite upper_percentile) (Finite 100) = Finite qu \<and>
    calculate_confidence_interval (map Finite xs) (Finite c) =
      Inr (Finite (linear_percentile xs ql), Finite (linear_percentile xs qu)) \<and>
    linear_percentile xs ql \<le> linear_percentile xs qu"
  using assms by (rule calculate_confidence_interval_finite)

theorem calculate_confidence_interval_percentiles_witness:
  "[1 / 2, 1 / 4, 1 :: rat] \<noteq> [] \<and> (0::rat) < 7 / 8 \<and> (7 / 8 :: rat) < 1 \<and>
   calculate_confidence_interval (map Finite [1 / 2, 1 / 4, 1]) (Finite (7 / 8)) =
     Inr (Finite (9 / 32), Finite (15 / 16)) \<and>
   (\<exists>ql qu. calculate_confidence_interval (map Finite [1 / 2, 1 / 4, 1]) (Finite (7 / 8)) =
      Inr (Finite (linear_percentile [1 / 2, 1 / 4, 1] ql),
           Finite (linear_percentile [1 / 2, 1 / 4, 1] qu)) \<and>
      linear_percentile [1 / 2, 1 / 4, 1] ql \<le> linear_percentile [1 / 2, 1 / 4, 1] qu)"
proof -
  have ne: "[1 / 2, 1 / 4, 1 :: rat] \<noteq> []" by simp
  have c0: "(0::rat) < 7 / 8" by simp
  have c1: "(7 / 8 :: rat) < 1" by simp
  from calculate_confidence_interval_percentiles [OF ne c0 c1]
  obtain ql qu where
    "calculate_confidence_interval (map Finite [1 / 2, 1 / 4, 1]) (Finite (7 / 8)) =
      Inr (Finite (linear_percentile [1 / 2, 1 / 4, 1] ql),
           Finite (linear_percentile [1 / 2, 1 / 4, 1] qu)) \<and>
      linear_percentile [1 / 2, 1 / 4, 1] ql \<le> linear_percentile [1 / 2, 1 / 4, 1] qu"
    by blast
  then have "\<exists>ql qu. calculate_confidence_interval (map Finite [1 / 2, 1 / 4, 1])
      (Finite (7 / 8)) =
      Inr (Finite (linear_percentile [1 / 2, 1 / 4, 1] ql),
           Finite (linear_percentile [1 / 2, 1 / 4, 1] qu)) \<and>
      linear_percentile [1 / 2, 1 / 4, 1] ql \<le> linear_percentile [1 / 2, 1 / 4, 1] qu"
    by (intro exI)
  with ne c0 c1 example_interval show ?thesis by (intro conjI)
qed

text \<open>
  Claim C9: the result of \<^verbatim>\<open>analyze_disorder_prevalence\<close> has under \<open>standard_error\<close> the
  population standard deviation (the divisor is \<open>N\<close>) of the list \<open>bootstrap_rates\<close> that
  \<^verbatim>\<open>bootstrap_prevalence_rate\<close> produces (called with the same frame, name, iterations and
  seed, and no sample size), and under \<open>confidence_interval\<close> what
  \<^verbatim>\<open>calculate_confidence_interval\<close> returns for that list.  The call returns for a seed in
  \<open>0 .. 2^32 - 1\<close>, a positive \<open>n_iterations\<close> and a confidence level in \<open>(0, 1)\<close>.
\<close>

theorem analyze_disorder_prevalence_result:
  "(0 \<le> random_state \<and> random_state < 2 ^ 32 \<and> 0 < n_iterations \<and> 0 < c \<and> c < 1 \<longrightarrow>
      (\<exists>res. analyze_disorder_prevalence G df disorder_name n_iterations (Finite c) random_state
         = Inr res))
   \<and> (analyze_disorder_prevalence G df disorder_name n_iterations confidence_level random_state
         = Inr res \<longrightarrow>
       (\<exists>xs. bootstrap_prevalence_rate G df disorder_name n_iterations None random_state =
               Inr (key_original_rate res, map Finite xs) \<and>
             key_bootstrap_rates res = map Finite xs \<and>
             key_standard_error res = population_std xs \<and>
             calculate_confidence_interval (map Finite xs) confidence_level =
               Inr (key_confidence_interval res)))"
proof (intro conjI impI)
  assume h: "0 \<le> random_state \<and> random_state < 2 ^ 32 \<and> 0 < n_iterations \<and> 0 < c \<and> c < 1"
  then have "0 \<le> random_state \<and> random_state < 2 ^ 32 \<and>
    (n_iterations \<le> 0 \<or> draws_ok (main_question_rows df) (follow_up_rows df) None)"
    by (simp add: draws_ok_def)
  then obtain original_rate rates where run:
    "bootstrap_prevalence_rate G df disorder_name n_iterations None random_state =
       Inr (original_rate, rates)"
    using bootstrap_prevalence_rate_returns [of G df disorder_name n_iterations None random_state]
    by fastforce
  from bootstrap_prevalence_rate_finite [OF run] obtain xs where
    xs: "rates = map Finite xs" "length xs = nat n_iterations" by blast
  then have ne: "xs \<noteq> []" using h by auto
  from calculate_confidence_interval_finite [OF ne, of c] h obtain lo hi where
    ci: "calculate_confidence_interval (map Finite xs) (Finite c) = Inr (lo, hi)" by blast
  show "\<exists>res. analyze_disorder_prevalence G df disorder_name n_iterations (Finite c)
      random_state = Inr res"
    by (simp add: analyze_disorder_prevalence_def run xs(1) ci np_std_population [OF ne])
next
  assume "analyze_disorder_prevalence G df disorder_name n_iterations confidence_level
    random_state = Inr res"
  from analyze_disorder_prevalence_Inr [OF this] obtain original_rate rates lower_bound
    upper_bound se where
    run: "bootstrap_prevalence_rate G df disorder_name n_iterations None random_state =
      Inr (original_rate, rates)"
    and ci: "calculate_confidence_interval rates confidence_level = Inr (lower_bound, upper_bound)"
    and sd: "np_std rates 0 = Inr se"
    and res: "res = \<lparr>key_original_rate = original_rate,
           key_confidence_interval = (lower_bound, upper_bound),
           key_bootstrap_rates = rates,
           key_standard_error = se\<rparr>"
    by blast
  from np_std_Inr [OF sd] obtain xs where
    xs: "rates = map Finite xs" "se = population_std xs" by blast
  have "bootstrap_prevalence_rate G df disorder_name n_iterations None random_state =
               Inr (key_original_rate res, map Finite xs) \<and>
             key_bootstrap_rates res = map Finite xs \<and>
             key_standard_error res = population_std xs \<and>
             calculate_confidence_interval (map Finite xs) confidence_level =
               Inr (key_confidence_interval res)"
    using run ci xs by (simp add: res)
  then show "\<exists>xs. bootstrap_prevalence_rate G df disorder_name n_iterations None random_state =
               Inr (key_original_rate res, map Finite xs) \<and>
             key_bootstrap_rates res = map Finite xs \<and>
             key_standard_error res = population_std xs \<and>
             calculate_confidence_interval (map Finite xs) confidence_level =
               Inr (key_confidence_interval res)"
    by (rule exI)
qed

theorem analyze_disorder_prevalence_result_witness:
  "(0::int) \<le> 42 \<and> (42::int) < 2 ^ 32 \<and> (0::int) < 2 \<and> (0::rat) < 7 / 8 \<and> (7 / 8 :: rat) < 1 \<and>
   (\<exists>res. analyze_disorder_prevalence counter_generator example_df ''Anxiety'' 2
            (Finite (7 / 8)) 42 = Inr res \<and>
          key_bootstrap_rates res = [Finite (1 / 2), Finite (1 / 2)] \<and>
          key_standard_error res = population_std [1 / 2, 1 / 2] \<and>
          calculate_confidence_interval [Finite (1 / 2), Finite (1 / 2)] (Finite (7 / 8)) =
            Inr (key_confidence_interval res))"
proof -
  have h: "(0::int) \<le> 42 \<and> (42::int) < 2 ^ 32 \<and> (0::int) < 2 \<and> (0::rat) < 7 / 8 \<and>
    (7 / 8 :: rat) < 1" by simp
  from analyze_disorder_prevalence_result [where random_state = 42 and n_iterations = 2
      and c = "7 / 8" and G = counter_generator and df = example_df
      and disorder_name = "''Anxiety''", THEN conjunct1, THEN mp, OF h]
  obtain res where res: "analyze_disorder_prevalence counter_generator example_df ''Anxiety'' 2
            (Finite (7 / 8)) 42 = Inr res" by blast
  from analyze_disorder_prevalence_result [where random_state = 42 and n_iterations = 2
      and G = counter_generator and df = example_df and disorder_name = "''Anxiety''"
      and confidence_level = "Finite (7 / 8)" and res = res, THEN conjunct2, THEN mp, OF res]
  obtain xs where xs:
    "bootstrap_prevalence_rate counter_generator example_df ''Anxiety'' 2 None 42 =
       Inr (key_original_rate res, map Finite xs)"
    "key_bootstrap_rates res = map Finite xs"
    "key_standard_error res = population_std xs"
    "calculate_confidence_interval (map Finite xs) (Finite (7 / 8)) =
       Inr (key_confidence_interval res)"
    by blast
  from xs(1) have "map Finite xs = [Finite (1 / 2), Finite (1 / 2)]"
    unfolding example_bootstrap by auto
  then have "xs = [1 / 2, 1 / 2]" by auto
  with xs res have "analyze_disorder_prevalence counter_generator example_df ''Anxiety'' 2
            (Finite (7 / 8)) 42 = Inr res \<and>
          key_bootstrap_rates res = [Finite (1 / 2), Finite (1 / 2)] \<and>
          key_standard_error res = population_std [1 / 2, 1 / 2] \<and>
          calculate_confidence_interval [Finite (1 / 2), Finite (1 / 2)] (Finite (7 / 8)) =
            Inr (key_confidence_interval res)"
    by simp
  then have "\<exists>res. analyze_disorder_prevalence counter_generator example_df ''Anxiety'' 2
            (Finite (7 / 8)) 42 = Inr res \<and>
          key_bootstrap_rates res = [Finite (1 / 2), Finite (1 / 2)] \<and>
          key_standard_error res = population_std [1 / 2, 1 / 2] \<and>
          calculate_confidence_interval [Finite (1 / 2), Finite (1 / 2)] (Finite (7 / 8)) =
            Inr (key_confidence_interval res)"
    by (rule exI)
  with h show ?thesis by (intro conjI) simp_all
qed

end
